theory Spec2Isabelle
  imports Complex_Main
begin

section \<open>Data model\<close>

text \<open>
  The notebooks compute with JAX arrays. An array of shape \<open>(n,)\<close> or \<open>(n, 1)\<close> is a list of
  its entries, an array of shape \<open>(n, m)\<close> the list of its rows. The weight array \<open>W\<close> has
  shape \<open>(in_size, 1)\<close>, the bias \<open>b\<close> shape \<open>(1,)\<close> (\<open>linear_model(2, 1)\<close>), so \<open>W\<close> is a list
  and \<open>b\<close> a number; \<open>X\<close> is the list of the samples' feature rows and \<open>y\<close> the list of targets.
  Entries are real numbers: the rounding of \<open>float32\<close> is not part of the model. All arrays of
  the notebook have matching shapes by construction, so no shape error is modelled; where a
  statement depends on shapes it says so. A mean over no entries and a division by a batch
  size of zero are \<open>nan\<close> or \<open>inf\<close> in the notebook: statements about these values exclude the
  empty data set and the empty batch.
\<close>

type_synonym vec = "real list"
type_synonym mat = "real list list"

subsection \<open>Array operations used by the cells\<close>

definition dot_vec :: "vec \<Rightarrow> vec \<Rightarrow> real" where
  "dot_vec u v = sum_list (map2 (*) u v)"

text \<open>\<open>jnp.dot(x, w)\<close> for \<open>x\<close> of shape \<open>(N, D)\<close> and \<open>w\<close> of shape \<open>(D, 1)\<close>.\<close>

definition dot :: "mat \<Rightarrow> vec \<Rightarrow> vec" where
  "dot x w = map (\<lambda>row. dot_vec row w) x"

definition mean :: "vec \<Rightarrow> real" where
  "mean v = sum_list v / real (length v)"

definition vsub :: "vec \<Rightarrow> vec \<Rightarrow> vec" where
  "vsub u v = map2 (-) u v"

definition vscale :: "real \<Rightarrow> vec \<Rightarrow> vec" where
  "vscale c v = map ((*) c) v"

definition vdiv :: "vec \<Rightarrow> real \<Rightarrow> vec" where
  "vdiv v c = map (\<lambda>x. x / c) v"

text \<open>\<open>jnp.linalg.norm\<close>: the Euclidean (Frobenius) norm of all entries.\<close>

definition norm2 :: "vec \<Rightarrow> real" where
  "norm2 v = sqrt (sum_list (map (\<lambda>x. x\<^sup>2) v))"

subsection \<open>The linear model and its loss\<close>

definition predict :: "vec \<Rightarrow> real \<Rightarrow> mat \<Rightarrow> vec" where
  "predict w b0 x = map (\<lambda>p. p + b0) (dot x w)"

definition loss :: "vec \<Rightarrow> real \<Rightarrow> mat \<Rightarrow> vec \<Rightarrow> real" where
  "loss w b0 x y = mean (map (\<lambda>r. r\<^sup>2) (vsub (predict w b0 x) y))"

text \<open>
  \<open>grad(loss, (0, 1))\<close> is JAX's differentiation operator: it takes the loss function and
  returns the function computing the pair of gradients with respect to the first two
  arguments. It is a parameter of the model (the gradient oracle).
\<close>

type_synonym loss_fn = "vec \<Rightarrow> real \<Rightarrow> mat \<Rightarrow> vec \<Rightarrow> real"
type_synonym grad_oracle = "loss_fn \<Rightarrow> vec \<Rightarrow> real \<Rightarrow> mat \<Rightarrow> vec \<Rightarrow> vec \<times> real"

text \<open>
  A concrete oracle, used to run the model on examples: central finite differences with
  step \<open>h\<close> in every coordinate.
\<close>

definition fd_grad :: "real \<Rightarrow> grad_oracle" where
  "fd_grad h f w b0 x y =
     (map (\<lambda>j. (f (w[j := w ! j + h]) b0 x y - f (w[j := w ! j - h]) b0 x y) / (2 * h))
        [0..<length w],
      (f w (b0 + h) x y - f w (b0 - h) x y) / (2 * h))"

subsection \<open>The variables of the notebook\<close>

text \<open>
  The cells assign global variables. \<open>W_now\<close> and \<open>b_now\<close> are the notebook's \<open>W\<close> and \<open>b\<close>;
  \<open>printed\<close> collects the lines printed by the loops: epoch, loss, weights, bias.
\<close>

record notebook =
  W_now :: vec
  b_now :: real
  old_W :: vec
  old_b :: real
  loss_val :: real
  minibatch_loss :: real
  epoch :: nat
  printed :: "(nat \<times> real \<times> vec \<times> real) list"

subsection \<open>The loop shared by both fitting cells\<close>

text \<open>
  Both cells are \<open>while True: body; if converged: break; epoch += 1\<close>. The loop has no bound
  on the number of epochs, so its result is optional: \<open>None\<close> is the loop that never leaves.
\<close>

definition converged :: "real \<Rightarrow> notebook \<Rightarrow> bool" where
  "converged tol s \<longleftrightarrow>
     norm2 (vsub (W_now s) (old_W s)) < tol \<and> norm2 [b_now s - old_b s] < tol"

definition next_epoch :: "notebook \<Rightarrow> notebook" where
  "next_epoch s = s\<lparr>epoch := epoch s + 1\<rparr>"

partial_function (option) while_true ::
  "(notebook \<Rightarrow> notebook) \<Rightarrow> (notebook \<Rightarrow> bool) \<Rightarrow> notebook \<Rightarrow> notebook option" where
  "while_true body stop s =
     (let s' = body s in
      if stop s' then Some s' else while_true body stop (next_epoch s'))"

text \<open>The state at the start of epoch \<open>n\<close>, had the loop not left before.\<close>

primrec epoch_start :: "(notebook \<Rightarrow> notebook) \<Rightarrow> nat \<Rightarrow> notebook \<Rightarrow> notebook" where
  "epoch_start body 0 s = s"
| "epoch_start body (Suc n) s = next_epoch (body (epoch_start body n s))"

subsection \<open>Full-batch gradient descent\<close>

definition full_batch_epoch ::
  "grad_oracle \<Rightarrow> real \<Rightarrow> mat \<Rightarrow> vec \<Rightarrow> notebook \<Rightarrow> notebook" where
  "full_batch_epoch G learning_rate X y s =
     (let s1 = s\<lparr>old_W := W_now s, old_b := b_now s\<rparr>;
          s2 = s1\<lparr>loss_val := loss (W_now s1) (b_now s1) X y\<rparr>;
          (grad_W, grad_b) = G loss (W_now s2) (b_now s2) X y;
          s3 = s2\<lparr>W_now := vsub (W_now s2) (vscale learning_rate grad_W)\<rparr>;
          s4 = s3\<lparr>b_now := b_now s3 - learning_rate * grad_b\<rparr>
      in if epoch s4 mod 100 = 0
         then s4\<lparr>printed := printed s4 @ [(epoch s4, loss_val s4, W_now s4, b_now s4)]\<rparr>
         else s4)"

definition fit_full_batch ::
  "grad_oracle \<Rightarrow> real \<Rightarrow> real \<Rightarrow> mat \<Rightarrow> vec \<Rightarrow> notebook \<Rightarrow> notebook option" where
  "fit_full_batch G learning_rate tolerance X y s =
     while_true (full_batch_epoch G learning_rate X y) (converged tolerance) s"

subsection \<open>Mini-batch gradient descent\<close>

text \<open>
  \<open>jnr.PRNGKey\<close> and \<open>jnr.randint\<close> are JAX's: parameters of the model. \<open>PRNGKey\<close> maps a
  seed to a key of some type \<open>'k\<close>; \<open>randint key shape minval maxval\<close> returns the array of
  indices, here of shape \<open>(num_batches, batch_size)\<close>. \<open>X[idx]\<close> gathers the rows of \<open>X\<close> at
  the indices of \<open>idx\<close>, repetitions included.
\<close>

type_synonym 'k sampler = "'k \<Rightarrow> nat \<times> nat \<Rightarrow> nat \<Rightarrow> nat \<Rightarrow> nat list list"

definition index_rows :: "'a list \<Rightarrow> nat list \<Rightarrow> 'a list" where
  "index_rows X idx = map (\<lambda>i. X ! i) idx"

definition minibatch_step ::
  "grad_oracle \<Rightarrow> real \<Rightarrow> nat \<Rightarrow> mat \<Rightarrow> vec \<Rightarrow> nat list \<Rightarrow> notebook \<Rightarrow> notebook" where
  "minibatch_step G learning_rate batch_size X y idx s =
     (let X_batch = index_rows X idx;
          y_batch = index_rows y idx;
          s1 = s\<lparr>old_W := W_now s, old_b := b_now s\<rparr>;
          s2 = s1\<lparr>loss_val := loss (W_now s1) (b_now s1) X_batch y_batch\<rparr>;
          s3 = s2\<lparr>minibatch_loss := minibatch_loss s2 + loss_val s2\<rparr>;
          (grad_W, grad_b) = G loss (W_now s3) (b_now s3) X_batch y_batch;
          s4 = s3\<lparr>W_now := vsub (W_now s3) (vdiv (vscale learning_rate grad_W) (real batch_size))\<rparr>
      in s4\<lparr>b_now := b_now s4 - learning_rate * grad_b / real batch_size\<rparr>)"

text \<open>The inner \<open>for i in range(num_batches)\<close> loop, up to batch \<open>k\<close>.\<close>

definition run_batches ::
  "grad_oracle \<Rightarrow> real \<Rightarrow> nat \<Rightarrow> mat \<Rightarrow> vec \<Rightarrow> nat list list \<Rightarrow> nat \<Rightarrow> notebook \<Rightarrow> notebook" where
  "run_batches G learning_rate batch_size X y indices k s =
     foldl (\<lambda>s i. minibatch_step G learning_rate batch_size X y (indices ! i) s) s [0..<k]"

definition minibatch_epoch ::
  "(nat \<Rightarrow> 'k) \<Rightarrow> 'k sampler \<Rightarrow> grad_oracle \<Rightarrow> real \<Rightarrow> nat \<Rightarrow> nat \<Rightarrow> mat \<Rightarrow> vec
     \<Rightarrow> notebook \<Rightarrow> notebook" where
  "minibatch_epoch PRNGKey randint G learning_rate batch_size num_batches X y s =
     (let num_samples = length X;
          key = PRNGKey (epoch s);
          indices = randint key (num_batches, batch_size) 0 num_samples;
          s1 = s\<lparr>minibatch_loss := 0\<rparr>;
          s2 = run_batches G learning_rate batch_size X y indices num_batches s1
      in if epoch s2 mod 10 = 0
         then s2\<lparr>printed := printed s2 @
                [(epoch s2, minibatch_loss s2 / real num_batches, W_now s2, b_now s2)]\<rparr>
         else s2)"

definition fit_minibatch ::
  "(nat \<Rightarrow> 'k) \<Rightarrow> 'k sampler \<Rightarrow> grad_oracle \<Rightarrow> real \<Rightarrow> nat \<Rightarrow> nat \<Rightarrow> real \<Rightarrow> mat \<Rightarrow> vec
     \<Rightarrow> notebook \<Rightarrow> notebook option" where
  "fit_minibatch PRNGKey randint G learning_rate batch_size num_batches tolerance X y s =
     while_true (minibatch_epoch PRNGKey randint G learning_rate batch_size num_batches X y)
       (converged tolerance) s"

subsection \<open>Taylor approximation of the square root\<close>

text \<open>
  The cell approximates \<open>sqrt(43)\<close> from the derivatives of \<open>sqrt\<close> at \<open>49\<close>. \<open>grad\<close> maps a
  function of one argument to its derivative; it is a parameter. \<open>d_now\<close> is the notebook's
  variable \<open>d\<close>, \<open>sqrt_fn\<close> its function \<open>sqrt\<close>.
\<close>

definition sqrt_fn :: "real \<Rightarrow> real" where
  "sqrt_fn x = x powr (1/2)"

record taylor =
  d_now :: "real \<Rightarrow> real"
  approx_total :: real
  factorial :: nat

definition highest_order :: nat where
  "highest_order = 5"

definition taylor_init :: taylor where
  "taylor_init = \<lparr>d_now = sqrt_fn, approx_total = 7, factorial = 1\<rparr>"

definition taylor_step :: "((real \<Rightarrow> real) \<Rightarrow> real \<Rightarrow> real) \<Rightarrow> taylor \<Rightarrow> nat \<Rightarrow> taylor" where
  "taylor_step grad s i =
     (let s1 = s\<lparr>d_now := grad (d_now s)\<rparr>;
          s2 = s1\<lparr>approx_total :=
                 approx_total s1 + d_now s1 49 * of_int ((- 6) ^ i) / real (factorial s1)\<rparr>
      in s2\<lparr>factorial := factorial s2 * i\<rparr>)"

text \<open>The state after the first \<open>k\<close> rounds of \<open>for i in range(1, highest_order+1)\<close>.\<close>

definition taylor_after :: "((real \<Rightarrow> real) \<Rightarrow> real \<Rightarrow> real) \<Rightarrow> nat \<Rightarrow> taylor" where
  "taylor_after grad k = foldl (taylor_step grad) taylor_init (take k [1..<highest_order + 1])"

text \<open>
  The degree-\<open>k\<close> Taylor polynomial of \<open>sqrt\<close> about \<open>49\<close> at \<open>43 = 49 - 6\<close>, as the text of
  the notebook and the specification describe the loop's value.
\<close>

definition taylor_polynomial :: "((real \<Rightarrow> real) \<Rightarrow> real \<Rightarrow> real) \<Rightarrow> nat \<Rightarrow> real" where
  "taylor_polynomial grad k =
     7 + (\<Sum>i = 1..k. (grad ^^ i) sqrt_fn 49 * of_int ((- 6) ^ i) / real (fact i))"

text \<open>The derivative operator of analysis, for the value \<open>grad\<close> computes.\<close>

definition derivative :: "(real \<Rightarrow> real) \<Rightarrow> real \<Rightarrow> real" where
  "derivative f x = (THE D. (f has_real_derivative D) (at x))"

subsection \<open>p-values of the fitted coefficients\<close>

text \<open>
  The cell after each fit. \<open>jnp.linalg.eigh\<close> (eigenvalues and a matrix whose columns are
  eigenvectors) and \<open>norm.cdf\<close> (the standard normal distribution function) are the
  libraries': parameters of the model. The notebook has two features and 1000 samples
  (\<open>jnp.ones((1000, 1))\<close>, \<open>W_ = [b[0], W[0][0], W[1][0]]\<close>); the model takes the number of rows of
  \<open>X\<close> and the entries of \<open>W\<close> as they are. \<open>X_aug\<close> and \<open>W_aug\<close> are the notebook's \<open>X_\<close> and \<open>W_\<close>.
\<close>

definition transpose_mat :: "mat \<Rightarrow> mat" where
  "transpose_mat A =
     (case A of [] \<Rightarrow> [] | r # _ \<Rightarrow> map (\<lambda>j. map (\<lambda>row. row ! j) A) [0..<length r])"

definition matmul :: "mat \<Rightarrow> mat \<Rightarrow> mat" where
  "matmul A B = map (\<lambda>row. map (\<lambda>col. dot_vec row col) (transpose_mat B)) A"

definition mat_scale :: "real \<Rightarrow> mat \<Rightarrow> mat" where
  "mat_scale c A = map (vscale c) A"

text \<open>\<open>jnp.diag\<close> of a vector is the diagonal matrix, of a matrix its diagonal.\<close>

definition diag_mat :: "vec \<Rightarrow> mat" where
  "diag_mat v = map (\<lambda>i. map (\<lambda>j. if i = j then v ! i else 0) [0..<length v]) [0..<length v]"

definition diag_vec :: "mat \<Rightarrow> vec" where
  "diag_vec M = map (\<lambda>i. M ! i ! i) [0..<length M]"

definition hstack_ones :: "mat \<Rightarrow> mat" where
  "hstack_ones X = map (\<lambda>row. 1 # row) X"

text \<open>
  Floating-point division by zero and the square root of a negative number raise nothing:
  they yield \<open>inf\<close> or \<open>nan\<close>, and the computation goes on with these. The model follows the
  values of a computation as long as they are finite; \<open>NonFinite\<close> is an array computed
  through an \<open>inf\<close> or \<open>nan\<close>, whose entries the model does not follow further.
\<close>

datatype 'a computed = Finite 'a | NonFinite

text \<open>
  The error kinds of the specification. The cell has no \<open>raise\<close>, no assertion and no check of
  the eigenvalues, and JAX raises nothing on \<open>inf\<close> or \<open>nan\<close>: no branch of the model returns
  an error.
\<close>

datatype error = ShapeMismatch | NonConvergence | NumericalInstability

text \<open>
  \<open>W_std = sigma2 * eig_vecs @ jnp.diag(1/jnp.sqrt(eig_vals)) @ eig_vecs.T\<close>; \<open>*\<close> and \<open>@\<close> have
  the same precedence and associate to the left. An eigenvalue that is not positive puts
  \<open>inf\<close> or \<open>nan\<close> on the diagonal, and so into every entry of the product.
\<close>

definition W_std :: "real \<Rightarrow> vec \<Rightarrow> mat \<Rightarrow> mat computed" where
  "W_std sigma2 eig_vals eig_vecs =
     (if list_all (\<lambda>l. 0 < l) eig_vals
      then Finite (matmul (matmul (mat_scale sigma2 eig_vecs)
                             (diag_mat (map (\<lambda>l. 1 / sqrt l) eig_vals)))
                     (transpose_mat eig_vecs))
      else NonFinite)"

text \<open>\<open>W_pvals = 2 * (1-norm.cdf(abs(W_.T) / jnp.diag(W_std)))\<close>.\<close>

definition W_pvals :: "(real \<Rightarrow> real) \<Rightarrow> vec \<Rightarrow> mat \<Rightarrow> vec computed" where
  "W_pvals cdf W_aug Wstd =
     (if list_all (\<lambda>d. d \<noteq> 0) (diag_vec Wstd)
      then Finite (map (\<lambda>z. 2 * (1 - cdf z)) (map2 (/) (map abs W_aug) (diag_vec Wstd)))
      else NonFinite)"

definition coefficient_p_values ::
  "(mat \<Rightarrow> vec \<times> mat) \<Rightarrow> (real \<Rightarrow> real) \<Rightarrow> vec \<Rightarrow> real \<Rightarrow> real \<Rightarrow> mat
     \<Rightarrow> error + vec computed" where
  "coefficient_p_values eigh cdf W b0 sigma2 X =
     (let X_aug = hstack_ones X;
          W_aug = b0 # W
      in if sigma2 = 0 then Inr NonFinite
         else
           let S = mat_scale (1 / sigma2) (matmul (transpose_mat X_aug) X_aug);
               (eig_vals, eig_vecs) = eigh S
           in case W_std sigma2 eig_vals eig_vecs of
                NonFinite \<Rightarrow> Inr NonFinite
              | Finite Wstd \<Rightarrow> Inr (W_pvals cdf W_aug Wstd))"

text \<open>
  What makes a pair returned by \<open>eigh\<close> an eigendecomposition of the symmetric \<open>S\<close>: the
  eigenvector matrix is square and orthogonal and \<open>S = V diag(eig_vals) V\<^sup>T\<close>.
\<close>

definition eigh_valid :: "mat \<Rightarrow> vec \<times> mat \<Rightarrow> bool" where
  "eigh_valid S r \<longleftrightarrow>
     (let n = length S; eig_vals = fst r; V = snd r
      in length eig_vals = n \<and> length V = n \<and> list_all (\<lambda>row. length row = n) V
       \<and> matmul V (transpose_mat V) = diag_mat (replicate n 1)
       \<and> matmul (matmul V (diag_mat eig_vals)) (transpose_mat V) = S)"

text \<open>What the model uses of the standard normal distribution function.\<close>

definition cdf_like :: "(real \<Rightarrow> real) \<Rightarrow> bool" where
  "cdf_like cdf \<longleftrightarrow> (\<forall>z. 0 \<le> z \<longrightarrow> 1/2 \<le> cdf z \<and> cdf z \<le> 1)"

text \<open>
  The p-values as the specification words them: the matrix
  \<open>residual_variance * V \<cdot> diag(1/sqrt(eigenvalues)) \<cdot> V\<^sup>T\<close> and, for every coefficient,
  \<open>2 * (1 - \<Phi>(|coefficient| / sqrt(diagonal entry)))\<close>.
\<close>

definition covariance_like :: "real \<Rightarrow> vec \<Rightarrow> mat \<Rightarrow> mat" where
  "covariance_like residual_variance eigenvalues V =
     mat_scale residual_variance
       (matmul (matmul V (diag_mat (map (\<lambda>l. 1 / sqrt l) eigenvalues))) (transpose_mat V))"

definition spec_p_values ::
  "(mat \<Rightarrow> vec \<times> mat) \<Rightarrow> (real \<Rightarrow> real) \<Rightarrow> vec \<Rightarrow> real \<Rightarrow> real \<Rightarrow> mat \<Rightarrow> vec" where
  "spec_p_values eigh cdf W b0 residual_variance X =
     (let X_augmented = hstack_ones X;
          (eigenvalues, V) =
             eigh (mat_scale (1 / residual_variance)
                     (matmul (transpose_mat X_augmented) X_augmented))
      in map2 (\<lambda>c d. 2 * (1 - cdf (\<bar>c\<bar> / sqrt d))) (b0 # W)
           (diag_vec (covariance_like residual_variance eigenvalues V)))"

section \<open>The unbounded loop\<close>

lemma epoch_start_shift:
  "epoch_start body (Suc n) s = epoch_start body n (next_epoch (body s))"
  by (induction n) simp_all

lemma while_true_stops:
  "stop (body (epoch_start body n s)) \<Longrightarrow>
   (\<forall>m<n. \<not> stop (body (epoch_start body m s))) \<Longrightarrow>
   while_true body stop s = Some (body (epoch_start body n s))"
proof (induction n arbitrary: s)
  case 0
  then show ?case by (subst while_true.simps) simp
next
  case (Suc n)
  have first: "\<not> stop (body s)" using Suc.prems(2) by force
  let ?s = "next_epoch (body s)"
  have "stop (body (epoch_start body n ?s))"
    using Suc.prems(1) by (simp add: epoch_start_shift del: epoch_start.simps)
  moreover have "\<forall>m<n. \<not> stop (body (epoch_start body m ?s))"
  proof (intro allI impI)
    fix m assume "m < n"
    then have "\<not> stop (body (epoch_start body (Suc m) s))" using Suc.prems(2) by blast
    then show "\<not> stop (body (epoch_start body m ?s))"
      by (simp add: epoch_start_shift del: epoch_start.simps)
  qed
  ultimately have "while_true body stop ?s = Some (body (epoch_start body n ?s))"
    by (rule Suc.IH)
  then show ?case using first
    by (subst while_true.simps) (simp add: epoch_start_shift del: epoch_start.simps)
qed

lemma while_true_SomeD:
  "while_true body stop s = Some r \<Longrightarrow>
   \<exists>n. stop (body (epoch_start body n s)) \<and> (\<forall>m<n. \<not> stop (body (epoch_start body m s)))
       \<and> r = body (epoch_start body n s)"
proof (induction rule: while_true.raw_induct[rotated 1, consumes 1])
  case (1 w body stop s r)
  show ?case
  proof (cases "stop (body s)")
    case True
    with 1(2) have "r = body s" by simp
    with True show ?thesis by (intro exI[of _ 0]) simp
  next
    case False
    with 1(2) have "w body stop (next_epoch (body s)) = Some r" by simp
    from 1(1)[OF this] obtain n where
      n: "stop (body (epoch_start body n (next_epoch (body s))))"
         "\<forall>m<n. \<not> stop (body (epoch_start body m (next_epoch (body s))))"
         "r = body (epoch_start body n (next_epoch (body s)))" by auto
    have "\<forall>m<Suc n. \<not> stop (body (epoch_start body m s))"
    proof (intro allI impI)
      fix m assume m: "m < Suc n"
      show "\<not> stop (body (epoch_start body m s))"
      proof (cases m)
        case 0 then show ?thesis using False by simp
      next
        case (Suc k)
        then have "k < n" using m by simp
        then show ?thesis using n(2) Suc
          by (simp add: epoch_start_shift del: epoch_start.simps)
      qed
    qed
    with n(1,3) show ?thesis
      by (intro exI[of _ "Suc n"]) (simp add: epoch_start_shift del: epoch_start.simps)
  qed
qed

lemma while_true_char:
  "while_true body stop s =
     (if \<exists>n. stop (body (epoch_start body n s))
      then Some (body (epoch_start body (LEAST n. stop (body (epoch_start body n s))) s))
      else None)"
proof (cases "\<exists>n. stop (body (epoch_start body n s))")
  case True
  let ?P = "\<lambda>n. stop (body (epoch_start body n s))"
  from True have "?P (LEAST n. ?P n)" by (metis LeastI)
  moreover have "\<forall>m<(LEAST n. ?P n). \<not> ?P m" using not_less_Least by blast
  ultimately show ?thesis using True while_true_stops[of stop body "LEAST n. ?P n" s] by simp
next
  case False
  then have "while_true body stop s = None"
    using while_true_SomeD[of body stop s] by (cases "while_true body stop s") auto
  with False show ?thesis by simp
qed

section \<open>Full-batch gradient descent: the epoch and the stopping rule\<close>

lemma dot_vec_sum:
  "length u = length v \<Longrightarrow> dot_vec u v = (\<Sum>j<length v. u ! j * v ! j)"
  by (simp add: dot_vec_def sum_list_sum_nth atLeast0LessThan)

lemma loss_sum:
  assumes "length y = length X" and "\<forall>row\<in>set X. length row = length w"
  shows "loss w b0 X y =
     (\<Sum>i<length X. ((\<Sum>j<length w. X ! i ! j * w ! j) + b0 - y ! i)\<^sup>2) / real (length X)"
proof -
  have "\<And>i. i < length X \<Longrightarrow> dot_vec (X ! i) w = (\<Sum>j<length w. X ! i ! j * w ! j)"
    using assms(2) by (simp add: dot_vec_sum)
  then show ?thesis using assms(1)
    by (simp add: loss_def mean_def vsub_def predict_def dot_def sum_list_sum_nth
        atLeast0LessThan)
qed

lemma full_batch_epoch_fields:
  "old_W (full_batch_epoch G lr X y s) = W_now s"
  "old_b (full_batch_epoch G lr X y s) = b_now s"
  "loss_val (full_batch_epoch G lr X y s) = loss (W_now s) (b_now s) X y"
  "W_now (full_batch_epoch G lr X y s) =
     vsub (W_now s) (vscale lr (fst (G loss (W_now s) (b_now s) X y)))"
  "b_now (full_batch_epoch G lr X y s) = b_now s - lr * snd (G loss (W_now s) (b_now s) X y)"
  "epoch (full_batch_epoch G lr X y s) = epoch s"
  by (simp_all add: full_batch_epoch_def Let_def split_beta)

text \<open>
  Claim C1. In every epoch \<open>n\<close> of the full-batch loop on a data set that is not empty,
  with one target for every sample and as many features as weights, the loss is the mean
  over the samples
  of the squared residuals \<open>(X\<cdot>W + b - y)\<^sup>2\<close> at the parameters the epoch starts with, the
  gradients are those the oracle returns for the loss function at these parameters, the
  new weights are \<open>W - learning_rate * gradW\<close> entry by entry and the new bias is
  \<open>b - learning_rate * gradb\<close>; the next epoch starts from these.
\<close>

theorem full_batch_epoch_update:
  assumes "X \<noteq> []" and "length y = length X"
    and "list_all (\<lambda>row. length row = length (W_now (epoch_start (full_batch_epoch G lr X y) n s0))) X"
  shows "let s = epoch_start (full_batch_epoch G lr X y) n s0;
             s' = full_batch_epoch G lr X y s;
             (gradW, gradb) = G loss (W_now s) (b_now s) X y
         in loss_val s' =
              (\<Sum>i<length X. ((\<Sum>j<length (W_now s). X ! i ! j * W_now s ! j) + b_now s - y ! i)\<^sup>2)
                / real (length X)
          \<and> W_now s' = map2 (\<lambda>w g. w - lr * g) (W_now s) gradW
          \<and> b_now s' = b_now s - lr * gradb
          \<and> epoch_start (full_batch_epoch G lr X y) (Suc n) s0 = next_epoch s'"
proof -
  have "vsub w (vscale lr g) = map2 (\<lambda>w g. w - lr * g) w g" for w g :: vec
    by (simp add: vsub_def vscale_def zip_map2 case_prod_unfold comp_def)
  then show ?thesis using assms(2,3)
    by (simp add: Let_def split_beta full_batch_epoch_fields loss_sum list_all_iff)
qed

text \<open>
  Claim C2. The full-batch loop leaves at the first epoch after whose update the Euclidean
  norms of the change of \<open>W\<close> and of the change of \<open>b\<close> are both below the tolerance, and
  returns the state reached there. Nothing else ends it: when no epoch's change is that
  small the loop never returns (\<open>None\<close>).
\<close>

theorem fit_full_batch_stops:
  "fit_full_batch G lr tol X y s =
     (let before = (\<lambda>n. epoch_start (full_batch_epoch G lr X y) n s);
          after = (\<lambda>n. full_batch_epoch G lr X y (before n));
          small = (\<lambda>n. norm2 (vsub (W_now (after n)) (W_now (before n))) < tol
                       \<and> norm2 [b_now (after n) - b_now (before n)] < tol)
      in if \<exists>n. small n then Some (after (LEAST n. small n)) else None)"
  unfolding fit_full_batch_def
  by (subst while_true_char) (simp add: converged_def full_batch_epoch_fields Let_def)

text \<open>A two-sample data set \<open>y = x\<close> on which the model is run.\<close>

definition example_X :: mat where "example_X = [[1], [-1]]"
definition example_y :: vec where "example_y = [1, -1]"
definition example_start :: notebook where
  "example_start = \<lparr>W_now = [0], b_now = 0, old_W = [], old_b = 0, loss_val = 0,
     minibatch_loss = 0, epoch = 0, printed = []\<rparr>"

lemma example_loss:
  "loss [w] b0 example_X example_y = ((w + b0 - 1)\<^sup>2 + (b0 - w + 1)\<^sup>2) / 2"
  by (simp add: loss_def mean_def vsub_def predict_def dot_def dot_vec_def example_X_def
      example_y_def)

lemma example_fd_grad:
  "fd_grad 1 loss [w] b0 example_X example_y = ([2 * (w - 1)], 2 * b0)"
  by (simp add: fd_grad_def example_loss power2_eq_square field_simps)

theorem full_batch_epoch_update_witness:
  "example_X \<noteq> []
   \<and> length example_y = length example_X
   \<and> list_all (\<lambda>row. length row =
         length (W_now (epoch_start (full_batch_epoch (fd_grad 1) (1/2) example_X example_y) 0 example_start)))
       example_X
   \<and> loss_val (full_batch_epoch (fd_grad 1) (1/2) example_X example_y example_start) = 1
   \<and> W_now (full_batch_epoch (fd_grad 1) (1/2) example_X example_y example_start) = [1]
   \<and> b_now (full_batch_epoch (fd_grad 1) (1/2) example_X example_y example_start) = 0"
proof -
  have h1: "length example_y = length example_X"
    by (simp add: example_X_def example_y_def)
  have h2: "list_all (\<lambda>row. length row =
         length (W_now (epoch_start (full_batch_epoch (fd_grad 1) (1/2) example_X example_y) 0 example_start)))
       example_X"
    by (simp add: example_X_def example_start_def)
  have w: "W_now example_start = [0]" "b_now example_start = 0"
    by (simp_all add: example_start_def)
  have h0: "example_X \<noteq> []" by (simp add: example_X_def)
  show ?thesis
    using full_batch_epoch_update[OF h0 h1 h2] h0 h1 h2
    by (simp add: Let_def w example_fd_grad) (simp add: example_X_def example_y_def)
qed

section \<open>Mini-batch gradient descent: batches, stopping rule, reproducibility\<close>

lemma minibatch_step_fields:
  "old_W (minibatch_step G lr bs X y idx s) = W_now s"
  "old_b (minibatch_step G lr bs X y idx s) = b_now s"
  "W_now (minibatch_step G lr bs X y idx s) =
     vsub (W_now s) (vdiv (vscale lr (fst (G loss (W_now s) (b_now s) (index_rows X idx) (index_rows y idx)))) (real bs))"
  "b_now (minibatch_step G lr bs X y idx s) =
     b_now s - lr * snd (G loss (W_now s) (b_now s) (index_rows X idx) (index_rows y idx)) / real bs"
  "epoch (minibatch_step G lr bs X y idx s) = epoch s"
  "printed (minibatch_step G lr bs X y idx s) = printed s"
  by (simp_all add: minibatch_step_def Let_def split_beta)

lemma run_batches_Suc:
  "run_batches G lr bs X y indices (Suc k) s =
     minibatch_step G lr bs X y (indices ! k) (run_batches G lr bs X y indices k s)"
  by (simp add: run_batches_def)

lemma run_batches_epoch: "epoch (run_batches G lr bs X y indices k s) = epoch s"
  by (induction k) (simp_all add: run_batches_Suc minibatch_step_fields, simp add: run_batches_def)

lemma minibatch_epoch_fields:
  "W_now (minibatch_epoch K R G lr bs nb X y s) =
     W_now (run_batches G lr bs X y (R (K (epoch s)) (nb, bs) 0 (length X)) nb (s\<lparr>minibatch_loss := 0\<rparr>))"
  "b_now (minibatch_epoch K R G lr bs nb X y s) =
     b_now (run_batches G lr bs X y (R (K (epoch s)) (nb, bs) 0 (length X)) nb (s\<lparr>minibatch_loss := 0\<rparr>))"
  "old_W (minibatch_epoch K R G lr bs nb X y s) =
     old_W (run_batches G lr bs X y (R (K (epoch s)) (nb, bs) 0 (length X)) nb (s\<lparr>minibatch_loss := 0\<rparr>))"
  "old_b (minibatch_epoch K R G lr bs nb X y s) =
     old_b (run_batches G lr bs X y (R (K (epoch s)) (nb, bs) 0 (length X)) nb (s\<lparr>minibatch_loss := 0\<rparr>))"
  "epoch (minibatch_epoch K R G lr bs nb X y s) = epoch s"
  by (simp_all add: minibatch_epoch_def Let_def run_batches_epoch)

lemma run_batches_all:
  "run_batches G lr bs X y indices (length indices) s =
     foldl (\<lambda>s idx. minibatch_step G lr bs X y idx s) s indices"
proof -
  have "foldl (\<lambda>s idx. minibatch_step G lr bs X y idx s) s (map (\<lambda>i. indices ! i) [0..<length indices])
      = foldl (\<lambda>s i. minibatch_step G lr bs X y (indices ! i) s) s [0..<length indices]"
    by (simp add: foldl_map)
  then show ?thesis by (simp add: run_batches_def map_nth)
qed

lemma update_as_map2:
  "vsub w (vdiv (vscale lr g) c) = map2 (\<lambda>w g. w - lr * (g / c)) w g"
  by (simp add: vsub_def vdiv_def vscale_def zip_map2 case_prod_unfold comp_def)

lemma foldl_minibatch_step_params:
  "(W_now (foldl (\<lambda>s idx. minibatch_step G lr bs X y idx s) s idxs),
    b_now (foldl (\<lambda>s idx. minibatch_step G lr bs X y idx s) s idxs)) =
   foldl (\<lambda>(w, b0) idx.
            let (gradW, gradb) = G loss w b0 (index_rows X idx) (index_rows y idx)
            in (map2 (\<lambda>w g. w - lr * (g / real bs)) w gradW, b0 - lr * (gradb / real bs)))
     (W_now s, b_now s) idxs"
  by (induction idxs arbitrary: s)
    (simp_all add: minibatch_step_fields update_as_map2 split_beta Let_def)

lemma index_rows_zip:
  "zip (index_rows X idx) (index_rows y idx) = map (\<lambda>i. (X ! i, y ! i)) idx"
  by (simp add: index_rows_def zip_map_map map_zip_map zip_same_conv_map)

lemma index_rows_samples:
  assumes "length y = length X" and "list_all (\<lambda>i. i < length X) idx"
  shows "set (zip (index_rows X idx) (index_rows y idx)) \<subseteq> set (zip X y)"
proof -
  have "(X ! i, y ! i) \<in> set (zip X y)" if "i < length X" for i
    using that assms(1) by (metis in_set_zip fst_conv snd_conv)
  then show ?thesis using assms(2) by (auto simp: index_rows_zip list_all_iff)
qed

text \<open>
  Claim C4. In an epoch of the mini-batch loop the index array is the one the sampler
  \<open>randint\<close> returns for the shape \<open>(num_batches, batch_size)\<close> and the bounds \<open>0\<close> and \<open>N\<close>, the
  number of samples. When the batches are not empty and the sampler keeps its contract (that
  shape, every index below \<open>N\<close>; nothing forbids repeated indices), the epoch processes exactly \<open>num_batches\<close> batches,
  each of \<open>batch_size\<close> samples of the data set, and the parameters after the epoch are those
  obtained by applying the updates one batch after the other, every gradient taken at the
  parameters the preceding batch left and divided by \<open>batch_size\<close> before it is scaled by the
  learning rate. That the sampler's indices are uniformly distributed is a property of
  \<open>jnr.randint\<close> itself, not of the notebook.
\<close>

theorem minibatch_epoch_batches:
  assumes "0 < batch_size" and "length y = length X"
    and "length (randint (PRNGKey (epoch s)) (num_batches, batch_size) 0 (length X)) = num_batches"
    and "list_all (\<lambda>idx. length idx = batch_size \<and> list_all (\<lambda>i. i < length X) idx)
           (randint (PRNGKey (epoch s)) (num_batches, batch_size) 0 (length X))"
  shows "let indices = randint (PRNGKey (epoch s)) (num_batches, batch_size) 0 (length X);
             update = (\<lambda>(w, b0) idx.
                let (gradW, gradb) = G loss w b0 (index_rows X idx) (index_rows y idx)
                in (map2 (\<lambda>w g. w - lr * (g / real batch_size)) w gradW,
                    b0 - lr * (gradb / real batch_size)));
             s' = minibatch_epoch PRNGKey randint G lr batch_size num_batches X y s
         in (W_now s', b_now s') = foldl update (W_now s, b_now s) indices
          \<and> length indices = num_batches
          \<and> list_all (\<lambda>idx. length (index_rows X idx) = batch_size
                        \<and> length (index_rows y idx) = batch_size
                        \<and> set (zip (index_rows X idx) (index_rows y idx)) \<subseteq> set (zip X y))
                indices"
proof -
  let ?ind = "randint (PRNGKey (epoch s)) (num_batches, batch_size) 0 (length X)"
  have "run_batches G lr batch_size X y ?ind num_batches (s\<lparr>minibatch_loss := 0\<rparr>)
      = foldl (\<lambda>s idx. minibatch_step G lr batch_size X y idx s) (s\<lparr>minibatch_loss := 0\<rparr>) ?ind"
    using run_batches_all[of G lr batch_size X y ?ind] assms(3) by simp
  then have params: "(W_now (minibatch_epoch PRNGKey randint G lr batch_size num_batches X y s),
      b_now (minibatch_epoch PRNGKey randint G lr batch_size num_batches X y s)) =
     foldl (\<lambda>(w, b0) idx.
            let (gradW, gradb) = G loss w b0 (index_rows X idx) (index_rows y idx)
            in (map2 (\<lambda>w g. w - lr * (g / real batch_size)) w gradW,
                b0 - lr * (gradb / real batch_size)))
       (W_now s, b_now s) ?ind"
    using foldl_minibatch_step_params[of G lr batch_size X y "s\<lparr>minibatch_loss := 0\<rparr>" ?ind]
    by (simp add: minibatch_epoch_fields)
  have batches: "list_all (\<lambda>idx. length (index_rows X idx) = batch_size
                        \<and> length (index_rows y idx) = batch_size
                        \<and> set (zip (index_rows X idx) (index_rows y idx)) \<subseteq> set (zip X y)) ?ind"
    unfolding list_all_iff
  proof
    fix idx assume "idx \<in> set ?ind"
    with assms(4) have "length idx = batch_size" "list_all (\<lambda>i. i < length X) idx"
      by (auto simp: list_all_iff)
    then show "length (index_rows X idx) = batch_size
                        \<and> length (index_rows y idx) = batch_size
                        \<and> set (zip (index_rows X idx) (index_rows y idx)) \<subseteq> set (zip X y)"
      using index_rows_samples[OF assms(2)] by (simp add: index_rows_def)
  qed
  show ?thesis unfolding Let_def using params batches assms(3) by simp
qed

text \<open>
  Claim C5. With at least one batch per epoch, \<open>old_W\<close> and \<open>old_b\<close> at the end of the epoch
  are the parameters before the last batch, so the stopping test of the mini-batch loop
  compares the tolerance with the change made by the last batch alone: the loop returns
  after this epoch exactly when that change is below the tolerance in both norms, whatever
  the earlier batches changed.
\<close>

theorem minibatch_stop_last_batch:
  assumes "0 < num_batches"
  shows "let body = minibatch_epoch PRNGKey randint G lr batch_size num_batches X y;
             indices = randint (PRNGKey (epoch s)) (num_batches, batch_size) 0 (length X);
             before_last = run_batches G lr batch_size X y indices (num_batches - 1)
                             (s\<lparr>minibatch_loss := 0\<rparr>);
             last_step = minibatch_step G lr batch_size X y (indices ! (num_batches - 1)) before_last;
             stop = (norm2 (vsub (W_now last_step) (W_now before_last)) < tol
                     \<and> norm2 [b_now last_step - b_now before_last] < tol)
         in W_now (body s) = W_now last_step \<and> b_now (body s) = b_now last_step
          \<and> converged tol (body s) = stop
          \<and> fit_minibatch PRNGKey randint G lr batch_size num_batches tol X y s =
              (if stop then Some (body s)
               else fit_minibatch PRNGKey randint G lr batch_size num_batches tol X y
                      (next_epoch (body s)))"
proof -
  obtain k where k: "num_batches = Suc k" using assms by (cases num_batches) auto
  let ?body = "minibatch_epoch PRNGKey randint G lr batch_size num_batches X y"
  have loop: "fit_minibatch PRNGKey randint G lr batch_size num_batches tol X y s =
      (if converged tol (?body s) then Some (?body s)
       else fit_minibatch PRNGKey randint G lr batch_size num_batches tol X y (next_epoch (?body s)))"
    unfolding fit_minibatch_def by (subst while_true.simps) (simp add: Let_def)
  show ?thesis
    unfolding Let_def
    by (subst loop)
      (simp add: k converged_def minibatch_epoch_fields run_batches_Suc minibatch_step_fields)
qed

lemma epoch_start_epoch:
  assumes "\<And>s. epoch (body s) = epoch s"
  shows "epoch (epoch_start body n s) = epoch s + n"
  by (induction n) (simp_all add: next_epoch_def assms)

lemma minibatch_epoch_cong:
  "randint (PRNGKey (epoch s)) = randint' (PRNGKey (epoch s)) \<Longrightarrow>
   minibatch_epoch PRNGKey randint G lr bs nb X y s = minibatch_epoch PRNGKey randint' G lr bs nb X y s"
  by (simp add: minibatch_epoch_def)

lemma epoch_start_minibatch_cong:
  assumes "\<forall>e. randint (PRNGKey (epoch s + e)) = randint' (PRNGKey (epoch s + e))"
  shows "epoch_start (minibatch_epoch PRNGKey randint G lr bs nb X y) n s =
         epoch_start (minibatch_epoch PRNGKey randint' G lr bs nb X y) n s"
proof (induction n)
  case 0
  show ?case by simp
next
  case (Suc n)
  let ?t = "epoch_start (minibatch_epoch PRNGKey randint' G lr bs nb X y) n s"
  have "epoch ?t = epoch s + n"
    by (rule epoch_start_epoch) (simp add: minibatch_epoch_fields)
  then have "randint (PRNGKey (epoch ?t)) = randint' (PRNGKey (epoch ?t))"
    using assms by simp
  then have "minibatch_epoch PRNGKey randint G lr bs nb X y ?t =
             minibatch_epoch PRNGKey randint' G lr bs nb X y ?t"
    by (rule minibatch_epoch_cong)
  then show ?case using Suc by simp
qed

text \<open>
  Claim C7. The key of every epoch is \<open>PRNGKey(epoch)\<close>. Two runs from the same state on the
  same data whose samplers return the same indices for these keys give the same result:
  the same final state (weights, bias and printed losses), or both never return.
\<close>

theorem fit_minibatch_reproducible:
  assumes "\<forall>e. randint (PRNGKey (epoch s + e)) = randint' (PRNGKey (epoch s + e))"
  shows "fit_minibatch PRNGKey randint G lr batch_size num_batches tol X y s =
         fit_minibatch PRNGKey randint' G lr batch_size num_batches tol X y s"
proof -
  let ?b1 = "minibatch_epoch PRNGKey randint G lr batch_size num_batches X y"
  let ?b2 = "minibatch_epoch PRNGKey randint' G lr batch_size num_batches X y"
  have "?b1 (epoch_start ?b1 n s) = ?b2 (epoch_start ?b2 n s)" for n
  proof -
    have "epoch (epoch_start ?b2 n s) = epoch s + n"
      by (rule epoch_start_epoch) (simp add: minibatch_epoch_fields)
    then have "randint (PRNGKey (epoch (epoch_start ?b2 n s))) =
               randint' (PRNGKey (epoch (epoch_start ?b2 n s)))"
      using assms by simp
    then have "?b1 (epoch_start ?b2 n s) = ?b2 (epoch_start ?b2 n s)"
      by (rule minibatch_epoch_cong)
    then show ?thesis
      using epoch_start_minibatch_cong[of randint PRNGKey s randint' G lr batch_size num_batches X y n]
        assms by simp
  qed
  then show ?thesis
    unfolding fit_minibatch_def while_true_char by simp
qed

text \<open>A sampler on keys that are pairs of numbers, for running the model.\<close>

definition example_PRNGKey :: "nat \<Rightarrow> nat \<times> nat" where
  "example_PRNGKey seed = (0, seed)"

definition example_randint :: "(nat \<times> nat) sampler" where
  "example_randint key shape minval maxval =
     map (\<lambda>i. map (\<lambda>j. minval + (fst key + snd key + i + j) mod (maxval - minval))
                 [0..<snd shape])
       [0..<fst shape]"

definition other_randint :: "(nat \<times> nat) sampler" where
  "other_randint key shape minval maxval =
     (if fst key = 0 then example_randint key shape minval maxval else [])"

lemma example_indices:
  "example_randint (example_PRNGKey 0) (2, 2) 0 (length example_X) = [[0, Suc 0], [Suc 0, 0]]"
  by (simp add: example_randint_def example_PRNGKey_def example_X_def upt_rec)

lemma example_batches:
  "index_rows example_X [0, Suc 0] = [[1], [-1]]" "index_rows example_y [0, Suc 0] = [1, -1]"
  "index_rows example_X [Suc 0, 0] = [[-1], [1]]" "index_rows example_y [Suc 0, 0] = [-1, 1]"
  by (simp_all add: index_rows_def example_X_def example_y_def)

lemma example_batch_loss:
  "loss [w] b0 [[1], [-1]] [1, -1] = ((w + b0 - 1)\<^sup>2 + (b0 - w + 1)\<^sup>2) / 2"
  "loss [w] b0 [[-1], [1]] [-1, 1] = ((w + b0 - 1)\<^sup>2 + (b0 - w + 1)\<^sup>2) / 2"
  by (simp_all add: loss_def mean_def vsub_def predict_def dot_def dot_vec_def)

lemma example_batch_grad:
  "fd_grad 1 loss [w] b0 [[1], [-1]] [1, -1] = ([2 * (w - 1)], 2 * b0)"
  "fd_grad 1 loss [w] b0 [[-1], [1]] [-1, 1] = ([2 * (w - 1)], 2 * b0)"
  by (simp_all add: fd_grad_def example_batch_loss power2_eq_square field_simps)

theorem minibatch_epoch_batches_witness:
  "0 < (2::nat)
   \<and> length example_y = length example_X
   \<and> length (example_randint (example_PRNGKey (epoch example_start)) (2, 2) 0 (length example_X)) = 2
   \<and> list_all (\<lambda>idx. length idx = 2 \<and> list_all (\<lambda>i. i < length example_X) idx)
        (example_randint (example_PRNGKey (epoch example_start)) (2, 2) 0 (length example_X))
   \<and> W_now (minibatch_epoch example_PRNGKey example_randint (fd_grad 1) (1/2) 2 2
              example_X example_y example_start) = [3/4]
   \<and> b_now (minibatch_epoch example_PRNGKey example_randint (fd_grad 1) (1/2) 2 2
              example_X example_y example_start) = 0"
proof -
  have e: "epoch example_start = 0" "W_now example_start = [0]" "b_now example_start = 0"
    by (simp_all add: example_start_def)
  have h0: "0 < (2::nat)" by simp
  have h1: "length example_y = length example_X"
    by (simp add: example_X_def example_y_def)
  have h2: "length (example_randint (example_PRNGKey (epoch example_start)) (2, 2) 0
              (length example_X)) = 2"
    by (simp add: e example_indices)
  have h3: "list_all (\<lambda>idx. length idx = 2 \<and> list_all (\<lambda>i. i < length example_X) idx)
        (example_randint (example_PRNGKey (epoch example_start)) (2, 2) 0 (length example_X))"
    by (simp add: e example_indices) (simp add: example_X_def)
  show ?thesis
    using minibatch_epoch_batches[where randint = example_randint and PRNGKey = example_PRNGKey
        and s = example_start and num_batches = 2 and batch_size = 2 and X = example_X
        and y = example_y and G = "fd_grad 1" and lr = "1/2", OF h0 h1 h2 h3] h0 h1 h2 h3
    by (simp add: Let_def e example_indices example_batches example_batch_grad)
qed

lemma norm2_single: "norm2 [x] = \<bar>x\<bar>"
  by (simp add: norm2_def)

theorem minibatch_stop_last_batch_witness:
  "0 < (2::nat)
   \<and> W_now example_start = [0]
   \<and> W_now (run_batches (fd_grad 1) 1 2 example_X example_y
              (example_randint (example_PRNGKey (epoch example_start)) (2, 2) 0 (length example_X))
              (2 - 1) (example_start\<lparr>minibatch_loss := 0\<rparr>)) = [1]
   \<and> converged (1/100000) (minibatch_epoch example_PRNGKey example_randint (fd_grad 1) 1 2 2
              example_X example_y example_start)
   \<and> fit_minibatch example_PRNGKey example_randint (fd_grad 1) 1 2 2 (1/100000)
         example_X example_y example_start =
       Some (minibatch_epoch example_PRNGKey example_randint (fd_grad 1) 1 2 2
              example_X example_y example_start)"
proof -
  have e: "epoch example_start = 0" "W_now example_start = [0]" "b_now example_start = 0"
    by (simp_all add: example_start_def)
  have pos: "0 < (2::nat)" by simp
  have one: "(2::nat) - 1 = Suc 0" by simp
  have pre: "W_now (run_batches (fd_grad 1) 1 2 example_X example_y [[0, Suc 0], [Suc 0, 0]]
                (Suc 0) (example_start\<lparr>minibatch_loss := 0\<rparr>)) = [1]"
       "b_now (run_batches (fd_grad 1) 1 2 example_X example_y [[0, Suc 0], [Suc 0, 0]]
                (Suc 0) (example_start\<lparr>minibatch_loss := 0\<rparr>)) = 0"
    by (simp_all add: run_batches_def minibatch_step_fields e example_batches example_batch_grad
        vsub_def vdiv_def vscale_def)
  show ?thesis
    using minibatch_stop_last_batch[where num_batches = 2 and PRNGKey = example_PRNGKey
        and randint = example_randint and G = "fd_grad 1" and lr = 1 and batch_size = 2
        and X = example_X and y = example_y and s = example_start and tol = "1/100000", OF pos]
    by (simp add: Let_def e one example_indices pre minibatch_step_fields example_batches
        example_batch_grad vsub_def vdiv_def vscale_def norm2_single)
qed

lemma example_samplers_agree:
  "example_randint (example_PRNGKey seed) = other_randint (example_PRNGKey seed)"
  by (rule ext)+ (simp add: other_randint_def example_PRNGKey_def)

lemma example_samplers_differ: "example_randint \<noteq> other_randint"
proof
  assume "example_randint = other_randint"
  then have "example_randint (1, 0) (1, 1) 0 1 = other_randint (1, 0) (1, 1) 0 1" by simp
  then show False by (simp add: other_randint_def example_randint_def)
qed

theorem fit_minibatch_reproducible_witness:
  "(\<forall>e. example_randint (example_PRNGKey (epoch example_start + e)) =
        other_randint (example_PRNGKey (epoch example_start + e)))
   \<and> example_randint \<noteq> other_randint
   \<and> fit_minibatch example_PRNGKey example_randint (fd_grad 1) 1 2 2 (1/100000)
         example_X example_y example_start =
       fit_minibatch example_PRNGKey other_randint (fd_grad 1) 1 2 2 (1/100000)
         example_X example_y example_start"
proof -
  have h: "\<forall>e. example_randint (example_PRNGKey (epoch example_start + e)) =
        other_randint (example_PRNGKey (epoch example_start + e))"
    by (simp add: example_samplers_agree)
  show ?thesis
    using fit_minibatch_reproducible[where randint = example_randint
        and randint' = other_randint and PRNGKey = example_PRNGKey and s = example_start, OF h]
      h example_samplers_differ by blast
qed

section \<open>The Taylor approximation loop\<close>

lemma taylor_after_Suc:
  assumes "k < highest_order"
  shows "taylor_after grad (Suc k) = taylor_step grad (taylor_after grad k) (Suc k)"
proof -
  have len: "k < length [1..<highest_order + 1]" using assms by simp
  have "[1..<highest_order + 1] ! k = 1 + k" using assms by (intro nth_upt) simp
  then have "[1..<highest_order + 1] ! k = Suc k" by simp
  then have "take (Suc k) [1..<highest_order + 1] = take k [1..<highest_order + 1] @ [Suc k]"
    using take_Suc_conv_app_nth[OF len] by simp
  then show ?thesis unfolding taylor_after_def by (simp only: foldl_append foldl.simps)
qed

lemma taylor_after_invariant:
  "k \<le> highest_order \<Longrightarrow>
   d_now (taylor_after grad k) = (grad ^^ k) sqrt_fn
   \<and> factorial (taylor_after grad k) = fact k
   \<and> approx_total (taylor_after grad k) =
       7 + (\<Sum>i = 1..k. (grad ^^ i) sqrt_fn 49 * of_int ((- 6) ^ i) / real (fact (i - 1)))"
proof (induction k)
  case 0
  show ?case by (simp add: taylor_after_def taylor_init_def)
next
  case (Suc k)
  then have k: "k < highest_order" and IH: "d_now (taylor_after grad k) = (grad ^^ k) sqrt_fn"
    "factorial (taylor_after grad k) = fact k"
    "approx_total (taylor_after grad k) =
       7 + (\<Sum>i = 1..k. (grad ^^ i) sqrt_fn 49 * of_int ((- 6) ^ i) / real (fact (i - 1)))"
    by simp_all
  show ?case
    by (simp add: taylor_after_Suc[OF k] taylor_step_def Let_def IH mult.commute)
qed

lemma derivative_eq:
  "(f has_real_derivative D) (at x) \<Longrightarrow> derivative f x = D"
  unfolding derivative_def by (rule the_equality) (auto intro: DERIV_unique)

lemma derivative_powr:
  assumes "0 < x"
  shows "derivative (\<lambda>x. c * x powr r) x = c * (r * x powr (r - 1))"
proof (rule derivative_eq)
  show "((\<lambda>x. c * x powr r) has_real_derivative c * (r * x powr (r - 1))) (at x)"
    using assms by (auto intro!: derivative_eq_intros)
qed

lemma derivative_cong:
  assumes "\<And>z. 0 < z \<Longrightarrow> f z = g z" and "0 < x"
  shows "derivative f x = derivative g x"
proof -
  have ev: "eventually (\<lambda>z. f z = g z) (nhds x)"
  proof -
    have "eventually (\<lambda>z. z \<in> {0<..}) (nhds x)"
      using assms(2) by (intro eventually_nhds_in_open) auto
    then show ?thesis by (rule eventually_mono) (simp add: assms(1))
  qed
  have "(f has_real_derivative D) (at x) = (g has_real_derivative D) (at x)" for D
    by (rule DERIV_cong_ev[OF refl ev refl])
  then show ?thesis by (simp add: derivative_def)
qed

lemma derivative_iterated_sqrt_fn:
  "0 < x \<Longrightarrow>
   (derivative ^^ n) sqrt_fn x = (\<Prod>j<n. (1/2 - real j)) * x powr (1/2 - real n)"
proof (induction n arbitrary: x)
  case 0
  then show ?case by (simp add: sqrt_fn_def)
next
  case (Suc n)
  let ?c = "\<Prod>j<n. (1/2 - real j)"
  have "(derivative ^^ Suc n) sqrt_fn x = derivative ((derivative ^^ n) sqrt_fn) x" by simp
  also have "\<dots> = derivative (\<lambda>z. ?c * z powr (1/2 - real n)) x"
    by (rule derivative_cong) (simp_all add: Suc)
  also have "\<dots> = ?c * ((1/2 - real n) * x powr (1/2 - real n - 1))"
    by (rule derivative_powr[OF Suc.prems])
  also have "\<dots> = (\<Prod>j<Suc n. (1/2 - real j)) * x powr (1/2 - real (Suc n))"
    by (simp add: algebra_simps)
  finally show ?case .
qed

lemma powr_49_half: "(49::real) powr (1/2 - real n) = 7 / 49 ^ n"
proof -
  have "(49::real) powr (1/2 - real n) = 49 powr (1/2) / 49 powr real n"
    by (rule powr_diff)
  also have "(49::real) powr (1/2) = 7" by (simp add: powr_half_sqrt real_sqrt_unique)
  also have "(49::real) powr real n = 49 ^ n" by (simp add: powr_realpow)
  finally show ?thesis .
qed

lemma derivative_sqrt_fn_49:
  "(derivative ^^ n) sqrt_fn 49 = (\<Prod>j<n. (1/2 - real j)) * (7 / 49 ^ n)"
  by (simp add: derivative_iterated_sqrt_fn powr_49_half del: funpow.simps)

lemma derivatives_at_49:
  "(derivative ^^ 1) sqrt_fn 49 = 1/14"
  "(derivative ^^ 2) sqrt_fn 49 = - 1/1372"
  "(derivative ^^ 3) sqrt_fn 49 = 3/134456"
  "(derivative ^^ 4) sqrt_fn 49 = - 15/13176688"
  "(derivative ^^ 5) sqrt_fn 49 = 15/184473632"
  unfolding derivative_sqrt_fn_49 by (simp_all add: eval_nat_numeral)

lemma sum_1_to_5:
  fixes f :: "nat \<Rightarrow> real"
  shows "(\<Sum>i = 1..1. f i) = f 1"
    "(\<Sum>i = 1..2. f i) = f 1 + f 2"
    "(\<Sum>i = 1..3. f i) = f 1 + f 2 + f 3"
    "(\<Sum>i = 1..4. f i) = f 1 + f 2 + f 3 + f 4"
    "(\<Sum>i = 1..5. f i) = f 1 + f 2 + f 3 + f 4 + f 5"
  by (simp_all add: eval_nat_numeral)

lemma taylor_after_value:
  "k \<le> highest_order \<Longrightarrow>
   approx_total (taylor_after grad k) =
     7 + (\<Sum>i = 1..k. (grad ^^ i) sqrt_fn 49 * of_int ((- 6) ^ i) / real (fact (i - 1)))"
  using taylor_after_invariant by blast

text \<open>
  Claim C9 says that after round \<open>k\<close> the accumulated value is the degree-\<open>k\<close> Taylor
  polynomial. The loop multiplies \<open>factorial\<close> by \<open>i\<close> only after it has used it, so round \<open>i\<close>
  divides by \<open>(i - 1)!\<close> (lemma \<open>taylor_after_value\<close>). With the derivatives of analysis
  the values after the five rounds are \<open>6.571428\<close>, \<open>6.545189\<close>, \<open>6.542779\<close>, \<open>6.542533\<close> and
  \<open>6.542507\<close>, the five lines the notebook prints; the Taylor polynomials of degree one to
  five are \<open>6.571428\<close>, \<open>6.558309\<close>, \<open>6.557505\<close>, \<open>6.557444\<close> and \<open>6.557439\<close>. They agree in
  the first round only.
\<close>

theorem taylor_loop_not_taylor_polynomial:
  "map (\<lambda>k. approx_total (taylor_after derivative k)) [1, 2, 3, 4, 5] =
     [46/7, 2245/343, 219929/33614, 5388058/823543, 301730033/46118408]
   \<and> map (taylor_polynomial derivative) [1, 2, 3, 4, 5] =
     [46/7, 4499/686, 110212/16807, 43202699/6588344, 151209325/23059204]"
proof -
  have f: "fact (Suc 0) = (1::nat)" "fact 2 = (2::nat)" "fact 3 = (6::nat)" "fact 4 = (24::nat)"
    "fact 5 = (120::nat)"
    by (simp_all add: eval_nat_numeral)
  have raw: "approx_total (taylor_after derivative k) =
     7 + (\<Sum>i = 1..k. (derivative ^^ i) sqrt_fn 49 * of_int ((- 6) ^ i) / real (fact (i - 1)))"
    if "k \<le> 5" for k
    using that by (intro taylor_after_value) (simp add: highest_order_def)
  have "approx_total (taylor_after derivative 1) =
     7 + (\<Sum>i = 1..1. (derivative ^^ i) sqrt_fn 49 * of_int ((- 6) ^ i) / real (fact (i - 1)))"
    by (rule raw) simp
  also have "\<dots> = 46/7"
    unfolding sum_1_to_5 derivatives_at_49 by (simp add: f)
  finally have c1: "approx_total (taylor_after derivative 1) = 46/7" .
  have "approx_total (taylor_after derivative 2) =
     7 + (\<Sum>i = 1..2. (derivative ^^ i) sqrt_fn 49 * of_int ((- 6) ^ i) / real (fact (i - 1)))"
    by (rule raw) simp
  also have "\<dots> = 2245/343"
    unfolding sum_1_to_5 derivatives_at_49 by (simp add: f)
  finally have c2: "approx_total (taylor_after derivative 2) = 2245/343" .
  have "approx_total (taylor_after derivative 3) =
     7 + (\<Sum>i = 1..3. (derivative ^^ i) sqrt_fn 49 * of_int ((- 6) ^ i) / real (fact (i - 1)))"
    by (rule raw) simp
  also have "\<dots> = 219929/33614"
    unfolding sum_1_to_5 derivatives_at_49 by (simp add: f)
  finally have c3: "approx_total (taylor_after derivative 3) = 219929/33614" .
  have "approx_total (taylor_after derivative 4) =
     7 + (\<Sum>i = 1..4. (derivative ^^ i) sqrt_fn 49 * of_int ((- 6) ^ i) / real (fact (i - 1)))"
    by (rule raw) simp
  also have "\<dots> = 5388058/823543"
    unfolding sum_1_to_5 derivatives_at_49 by (simp add: f)
  finally have c4: "approx_total (taylor_after derivative 4) = 5388058/823543" .
  have "approx_total (taylor_after derivative 5) =
     7 + (\<Sum>i = 1..5. (derivative ^^ i) sqrt_fn 49 * of_int ((- 6) ^ i) / real (fact (i - 1)))"
    by (rule raw) simp
  also have "\<dots> = 301730033/46118408"
    unfolding sum_1_to_5 derivatives_at_49 by (simp add: f)
  finally have c5: "approx_total (taylor_after derivative 5) = 301730033/46118408" .
  have p1: "taylor_polynomial derivative 1 = 46/7"
    unfolding taylor_polynomial_def sum_1_to_5 derivatives_at_49 by (simp add: f)
  have p2: "taylor_polynomial derivative 2 = 4499/686"
    unfolding taylor_polynomial_def sum_1_to_5 derivatives_at_49 by (simp add: f)
  have p3: "taylor_polynomial derivative 3 = 110212/16807"
    unfolding taylor_polynomial_def sum_1_to_5 derivatives_at_49 by (simp add: f)
  have p4: "taylor_polynomial derivative 4 = 43202699/6588344"
    unfolding taylor_polynomial_def sum_1_to_5 derivatives_at_49 by (simp add: f)
  have p5: "taylor_polynomial derivative 5 = 151209325/23059204"
    unfolding taylor_polynomial_def sum_1_to_5 derivatives_at_49 by (simp add: f)
  show ?thesis unfolding list.map c1 c2 c3 c4 c5 p1 p2 p3 p4 p5 by simp
qed

section \<open>The p-values of the coefficients\<close>

lemma dot_vec_vscale: "dot_vec (vscale c r) col = c * dot_vec r col"
proof -
  have "sum_list (map2 (*) (map ((*) c) r) col) = c * sum_list (map2 (*) r col)"
  proof (induction r arbitrary: col)
    case Nil
    show ?case by simp
  next
    case (Cons a r)
    then show ?case by (cases col) (simp_all add: algebra_simps)
  qed
  then show ?thesis by (simp add: dot_vec_def vscale_def)
qed

lemma matmul_mat_scale: "matmul (mat_scale c A) B = mat_scale c (matmul A B)"
proof -
  have "map (\<lambda>col. dot_vec (vscale c row) col) cols = vscale c (map (\<lambda>col. dot_vec row col) cols)"
    for row cols
    by (simp add: dot_vec_vscale) (simp add: vscale_def)
  then show ?thesis by (simp add: matmul_def mat_scale_def)
qed

lemma W_std_covariance_like:
  "list_all (\<lambda>l. 0 < l) eig_vals \<Longrightarrow>
   W_std sigma_sq eig_vals eig_vecs = Finite (covariance_like sigma_sq eig_vals eig_vecs)"
  by (simp add: W_std_def covariance_like_def matmul_mat_scale)

lemma pvals_map2:
  "map (\<lambda>z. 2 * (1 - cdf z)) (map2 (/) (map abs w) ds) =
   map2 (\<lambda>c d. 2 * (1 - cdf (\<bar>c\<bar> / d))) w ds"
proof (induction w arbitrary: ds)
  case Nil
  show ?case by simp
next
  case (Cons a w)
  then show ?case by (cases ds) simp_all
qed

lemma W_pvals_formula:
  "list_all (\<lambda>d. d \<noteq> 0) (diag_vec M) \<Longrightarrow>
   W_pvals cdf w M = Finite (map2 (\<lambda>c d. 2 * (1 - cdf (\<bar>c\<bar> / d))) w (diag_vec M))"
  unfolding W_pvals_def by (simp only: if_True pvals_map2)

lemma coefficient_p_values_finite:
  assumes "sigma_sq \<noteq> 0"
    and "eigh (mat_scale (1 / sigma_sq) (matmul (transpose_mat (hstack_ones X)) (hstack_ones X)))
           = (eig_vals, V)"
    and "list_all (\<lambda>l. 0 < l) eig_vals"
    and "list_all (\<lambda>d. d \<noteq> 0) (diag_vec (covariance_like sigma_sq eig_vals V))"
  shows "coefficient_p_values eigh cdf W bias sigma_sq X =
           Inr (Finite (map2 (\<lambda>c d. 2 * (1 - cdf (\<bar>c\<bar> / d))) (bias # W)
                          (diag_vec (covariance_like sigma_sq eig_vals V))))"
  unfolding coefficient_p_values_def Let_def assms(2)
  using assms(1)
  by (simp add: W_std_covariance_like[OF assms(3)] W_pvals_formula[OF assms(4)])

text \<open>
  Claim C6, amended. When an eigenvalue returned for the scaled Gram matrix is zero or
  negative, the cell raises nothing: it returns normally an array computed through
  \<open>inf\<close> or \<open>nan\<close>.
\<close>

theorem rank_deficient_returns_nonfinite:
  assumes "\<exists>l\<in>set (fst (eigh (mat_scale (1 / sigma_sq)
                (matmul (transpose_mat (hstack_ones X)) (hstack_ones X))))). l \<le> 0"
  shows "coefficient_p_values eigh cdf W bias sigma_sq X = Inr NonFinite"
proof -
  have "\<not> list_all (\<lambda>l. 0 < l) (fst (eigh (mat_scale (1 / sigma_sq)
                (matmul (transpose_mat (hstack_ones X)) (hstack_ones X)))))"
    using assms by (auto simp: list_all_iff not_less)
  then show ?thesis
    by (simp add: coefficient_p_values_def Let_def W_std_def split_beta)
qed

lemma transpose_mat_length: "A \<noteq> [] \<Longrightarrow> length (transpose_mat A) = length (hd A)"
  by (cases A) (simp_all add: transpose_mat_def)

lemma transpose_mat_nth:
  "A \<noteq> [] \<Longrightarrow> j < length (hd A) \<Longrightarrow> transpose_mat A ! j = map (\<lambda>row. row ! j) A"
  by (cases A) (simp_all add: transpose_mat_def)

lemma matmul_length: "length (matmul A B) = length A"
  by (simp add: matmul_def)

lemma matmul_nth:
  "i < length A \<Longrightarrow> matmul A B ! i = map (dot_vec (A ! i)) (transpose_mat B)"
  by (simp add: matmul_def)

lemma diag_mat_length: "length (diag_mat v) = length v"
  by (simp add: diag_mat_def)

lemma diag_mat_nth:
  "i < length v \<Longrightarrow> diag_mat v ! i = map (\<lambda>j. if i = j then v ! i else 0) [0..<length v]"
  by (simp add: diag_mat_def)

lemma transpose_mat_diag_mat: "transpose_mat (diag_mat v) = diag_mat v"
proof (cases "v = []")
  case True
  then show ?thesis by (simp add: diag_mat_def transpose_mat_def)
next
  case False
  then have ne: "diag_mat v \<noteq> []" by (simp add: diag_mat_def)
  have hd: "length (hd (diag_mat v)) = length v"
    using False by (simp add: hd_conv_nth ne diag_mat_nth) 
  show ?thesis
  proof (rule nth_equalityI)
    show "length (transpose_mat (diag_mat v)) = length (diag_mat v)"
      by (simp add: transpose_mat_length ne hd diag_mat_length)
  next
    fix j assume "j < length (transpose_mat (diag_mat v))"
    then have j: "j < length v" by (simp add: transpose_mat_length ne hd)
    have "transpose_mat (diag_mat v) ! j = map (\<lambda>row. row ! j) (diag_mat v)"
      using j by (simp add: transpose_mat_nth ne hd)
    also have "\<dots> = map (\<lambda>i. if j = i then v ! j else 0) [0..<length v]"
      using j by (auto simp: diag_mat_def)
    finally show "transpose_mat (diag_mat v) ! j = diag_mat v ! j"
      using j by (simp add: diag_mat_nth)
  qed
qed

lemma dot_vec_sum':
  "length u = length v \<Longrightarrow> dot_vec u v = (\<Sum>j<length v. u ! j * v ! j)"
  by (simp add: dot_vec_def sum_list_sum_nth atLeast0LessThan)

lemma dot_vec_diag_row:
  assumes "j < length v" and "length r = length v"
  shows "dot_vec r (diag_mat v ! j) = r ! j * v ! j"
proof -
  have "dot_vec r (diag_mat v ! j) = (\<Sum>k<length v. r ! k * (if j = k then v ! j else 0))"
    using assms by (simp add: diag_mat_nth dot_vec_sum')
  also have "\<dots> = (\<Sum>k<length v. if k = j then r ! j * v ! j else 0)"
    by (intro sum.cong) auto
  also have "\<dots> = r ! j * v ! j"
    using assms(1) by simp
  finally show ?thesis .
qed

lemma matmul_diag_mat_nth:
  assumes "i < length V" and "length (V ! i) = length v"
  shows "matmul V (diag_mat v) ! i = map2 (*) (V ! i) v"
proof (rule nth_equalityI)
  show "length (matmul V (diag_mat v) ! i) = length (map2 (*) (V ! i) v)"
    using assms by (simp add: matmul_nth transpose_mat_diag_mat diag_mat_length)
next
  fix j assume "j < length (matmul V (diag_mat v) ! i)"
  then have j: "j < length v"
    using assms by (simp add: matmul_nth transpose_mat_diag_mat diag_mat_length)
  then show "matmul V (diag_mat v) ! i ! j = map2 (*) (V ! i) v ! j"
    using assms by (simp add: matmul_nth transpose_mat_diag_mat diag_mat_length dot_vec_diag_row)
qed

lemma transpose_mat_square:
  assumes "length V = n" and "list_all (\<lambda>row. length row = n) V" and "0 < n"
  shows "transpose_mat (transpose_mat V) = V"
proof -
  have ne: "V \<noteq> []" using assms(1,3) by auto
  have rows: "\<And>i. i < n \<Longrightarrow> length (V ! i) = n"
    using assms(1,2) by (simp add: list_all_length)
  have hd: "length (hd V) = n" using rows[of 0] assms(3) ne by (simp add: hd_conv_nth)
  have lenT: "length (transpose_mat V) = n" by (simp add: transpose_mat_length ne hd)
  have neT: "transpose_mat V \<noteq> []" using lenT assms(3) by auto
  have T: "\<And>j. j < n \<Longrightarrow> transpose_mat V ! j = map (\<lambda>row. row ! j) V"
    by (simp add: transpose_mat_nth ne hd)
  have hdT: "length (hd (transpose_mat V)) = n"
    using T[of 0] assms(1,3) neT by (simp add: hd_conv_nth)
  show ?thesis
  proof (rule nth_equalityI)
    show "length (transpose_mat (transpose_mat V)) = length V"
      by (simp add: transpose_mat_length neT hdT assms(1))
  next
    fix i assume "i < length (transpose_mat (transpose_mat V))"
    then have i: "i < n" by (simp add: transpose_mat_length neT hdT)
    have "transpose_mat (transpose_mat V) ! i = map (\<lambda>col. col ! i) (transpose_mat V)"
      using i by (simp add: transpose_mat_nth neT hdT)
    also have "\<dots> = V ! i"
    proof (rule nth_equalityI)
      show "length (map (\<lambda>col. col ! i) (transpose_mat V)) = length (V ! i)"
        using i by (simp add: lenT rows)
    next
      fix j assume "j < length (map (\<lambda>col. col ! i) (transpose_mat V))"
      then have j: "j < n" by (simp add: lenT)
      show "map (\<lambda>col. col ! i) (transpose_mat V) ! j = V ! i ! j"
        using i j by (simp add: lenT T assms(1))
    qed
    finally show "transpose_mat (transpose_mat V) ! i = V ! i" .
  qed
qed

lemma quadratic_form_diagonal:
  assumes "length V = n" and "list_all (\<lambda>row. length row = n) V" and "length e = n"
    and "i < n"
  shows "matmul (matmul V (diag_mat e)) (transpose_mat V) ! i ! i
           = dot_vec (map2 (*) (V ! i) e) (V ! i)"
proof -
  have n: "0 < n" using assms(4) by simp
  have row: "length (V ! i) = n" using assms(1,2,4) by (simp add: list_all_length)
  have "matmul (matmul V (diag_mat e)) (transpose_mat V) ! i
          = map (dot_vec (matmul V (diag_mat e) ! i)) V"
    using assms(1,4) by (simp add: matmul_nth matmul_length transpose_mat_square[OF assms(1,2) n])
  also have "matmul V (diag_mat e) ! i = map2 (*) (V ! i) e"
    using assms(1,3,4) row by (simp add: matmul_diag_mat_nth)
  finally show ?thesis using assms(1,4) by simp
qed

lemma gram_diagonal:
  assumes "length V = n" and "list_all (\<lambda>row. length row = n) V" and "i < n"
  shows "matmul V (transpose_mat V) ! i ! i = dot_vec (V ! i) (V ! i)"
proof -
  have n: "0 < n" using assms(3) by simp
  show ?thesis
    using assms(1,3) by (simp add: matmul_nth transpose_mat_square[OF assms(1,2) n])
qed

lemma weighted_square_Cons:
  "dot_vec (map2 (*) (a # r) (x # e)) (a # r) = x * a\<^sup>2 + dot_vec (map2 (*) r e) r"
  by (simp add: dot_vec_def power2_eq_square)

lemma weighted_square_nonneg:
  "length r = length e \<Longrightarrow> list_all (\<lambda>x. 0 < x) e \<Longrightarrow> 0 \<le> dot_vec (map2 (*) r e) r"
proof (induction r e rule: list_induct2)
  case Nil
  show ?case by (simp add: dot_vec_def)
next
  case (Cons a r x e)
  then have "0 \<le> dot_vec (map2 (*) r e) r" by simp
  moreover have "0 \<le> x * a\<^sup>2" using Cons.prems by simp
  ultimately show ?case unfolding weighted_square_Cons by (rule add_nonneg_nonneg[rotated])
qed

lemma weighted_square_pos:
  "length r = length e \<Longrightarrow> list_all (\<lambda>x. 0 < x) e \<Longrightarrow> dot_vec r r \<noteq> 0
   \<Longrightarrow> 0 < dot_vec (map2 (*) r e) r"
proof (induction r e rule: list_induct2)
  case Nil
  then show ?case by (simp add: dot_vec_def)
next
  case (Cons a r x e)
  have x: "0 < x" and e: "list_all (\<lambda>x. 0 < x) e" using Cons.prems by simp_all
  have rest: "0 \<le> dot_vec (map2 (*) r e) r"
    by (rule weighted_square_nonneg[OF Cons.hyps e])
  show ?case
  proof (cases "a = 0")
    case True
    then have "dot_vec r r \<noteq> 0" using Cons.prems(2) by (simp add: dot_vec_def)
    then have "0 < dot_vec (map2 (*) r e) r" using Cons.IH e by simp
    then show ?thesis unfolding weighted_square_Cons using True by simp
  next
    case False
    have "0 < x * a\<^sup>2" using x False by simp
    then show ?thesis unfolding weighted_square_Cons using rest by (rule add_pos_nonneg)
  qed
qed

lemma scaled_gram_corner:
  assumes "X \<noteq> []"
  shows "mat_scale c (matmul (transpose_mat (hstack_ones X)) (hstack_ones X)) ! 0 ! 0
           = c * real (length X)"
    and "0 < length (mat_scale c (matmul (transpose_mat (hstack_ones X)) (hstack_ones X)))"
proof -
  let ?A = "hstack_ones X"
  have ne: "?A \<noteq> []" using assms by (simp add: hstack_ones_def)
  have hd: "0 < length (hd ?A)" using assms by (cases X) (simp_all add: hstack_ones_def)
  have len: "0 < length (transpose_mat ?A)" using hd by (simp add: transpose_mat_length ne)
  have "transpose_mat ?A ! 0 = map (\<lambda>row. row ! 0) ?A"
    by (rule transpose_mat_nth[OF ne hd])
  then have col: "transpose_mat ?A ! 0 = map (\<lambda>_. 1) X"
    by (simp add: hstack_ones_def comp_def)
  have "dot_vec (map (\<lambda>_. 1) X) (map (\<lambda>_. 1) X) = real (length X)"
    by (induction X) (simp_all add: dot_vec_def)
  then have "matmul (transpose_mat ?A) ?A ! 0 ! 0 = real (length X)"
    using len by (simp add: matmul_nth col)
  then show "mat_scale c (matmul (transpose_mat ?A) ?A) ! 0 ! 0 = c * real (length X)"
    using len by (simp add: mat_scale_def vscale_def matmul_length matmul_nth)
  show "0 < length (mat_scale c (matmul (transpose_mat ?A) ?A))"
    using len by (simp add: mat_scale_def matmul_length)
qed

lemma covariance_like_diagonal:
  assumes "length V = n" and "list_all (\<lambda>row. length row = n) V" and "length eig_vals = n"
  shows "diag_vec (covariance_like sigma_sq eig_vals V) =
           map (\<lambda>i. sigma_sq * dot_vec (map2 (*) (V ! i) (map (\<lambda>l. 1 / sqrt l) eig_vals)) (V ! i))
             [0..<n]"
proof -
  let ?e = "map (\<lambda>l. 1 / sqrt l) eig_vals"
  let ?Q = "matmul (matmul V (diag_mat ?e)) (transpose_mat V)"
  have len: "length (covariance_like sigma_sq eig_vals V) = n"
    by (simp add: covariance_like_def mat_scale_def matmul_length assms(1))
  have "covariance_like sigma_sq eig_vals V ! i ! i = sigma_sq * dot_vec (map2 (*) (V ! i) ?e) (V ! i)"
    if i: "i < n" for i
  proof -
    have e: "length ?e = n" by (simp add: assms(3))
    have q: "?Q ! i ! i = dot_vec (map2 (*) (V ! i) ?e) (V ! i)"
      by (rule quadratic_form_diagonal[OF assms(1,2) e i])
    have row: "length (V ! i) = n" using assms(1,2) i by (simp add: list_all_length)
    have "length (?Q ! i) = n"
      using i assms(1) by (simp add: matmul_nth matmul_length
          transpose_mat_square[OF assms(1,2)])
    then show ?thesis
      using i q assms(1)
      by (simp add: covariance_like_def mat_scale_def vscale_def matmul_length)
  qed
  then show ?thesis by (simp add: diag_vec_def len)
qed

lemma p_value_in_unit_interval:
  assumes "cdf_like cdf" and "0 < d"
  shows "0 \<le> 2 * (1 - cdf (\<bar>c\<bar> / d)) \<and> 2 * (1 - cdf (\<bar>c\<bar> / d)) \<le> 1"
proof -
  have "0 \<le> \<bar>c\<bar> / d" using assms(2) by simp
  then have "1/2 \<le> cdf (\<bar>c\<bar> / d)" "cdf (\<bar>c\<bar> / d) \<le> 1"
    using assms(1) by (simp_all add: cdf_like_def)
  then show ?thesis by simp
qed

text \<open>
  Claim C8. When \<open>eigh\<close> returns an eigendecomposition of the scaled Gram matrix of the
  augmented design matrix with all eigenvalues positive, the cell returns finite p-values
  and every one of them lies in the interval from 0 to 1. (The distribution function is
  used only through its values between 1/2 and 1 at non-negative arguments; that the
  variance is positive follows from the positive eigenvalues.)
\<close>

theorem p_values_in_unit_interval:
  assumes "X \<noteq> []"
    and "S = mat_scale (1 / sigma_sq) (matmul (transpose_mat (hstack_ones X)) (hstack_ones X))"
    and "eigh_valid S (eigh S)"
    and "list_all (\<lambda>l. 0 < l) (fst (eigh S))"
    and "cdf_like cdf"
  shows "\<exists>ps. coefficient_p_values eigh cdf W bias sigma_sq X = Inr (Finite ps)
              \<and> list_all (\<lambda>p. 0 \<le> p \<and> p \<le> 1) ps"
proof -
  obtain eig_vals V where eq: "eigh S = (eig_vals, V)" by (cases "eigh S")
  define n where "n = length S"
  have n: "0 < n" unfolding n_def assms(2) by (rule scaled_gram_corner(2)[OF assms(1)])
  have pos: "list_all (\<lambda>l. 0 < l) eig_vals" using assms(4) eq by simp
  have shape: "length eig_vals = n" "length V = n" "list_all (\<lambda>row. length row = n) V"
    and gram: "matmul V (transpose_mat V) = diag_mat (replicate n 1)"
    and recon: "matmul (matmul V (diag_mat eig_vals)) (transpose_mat V) = S"
    using assms(3) by (simp_all add: eigh_valid_def eq Let_def n_def)
  have unit: "dot_vec (V ! i) (V ! i) = 1" if "i < n" for i
  proof -
    have "matmul V (transpose_mat V) ! i ! i = dot_vec (V ! i) (V ! i)"
      by (rule gram_diagonal[OF shape(2,3) that])
    then show ?thesis using that by (simp add: gram diag_mat_nth)
  qed
  have rows: "length (V ! i) = n" if "i < n" for i
    using shape(2,3) that by (simp add: list_all_length)
  have "S ! 0 ! 0 = dot_vec (map2 (*) (V ! 0) eig_vals) (V ! 0)"
    using quadratic_form_diagonal[OF shape(2,3,1) n] by (simp add: recon)
  moreover have "0 < dot_vec (map2 (*) (V ! 0) eig_vals) (V ! 0)"
    by (rule weighted_square_pos) (simp_all add: rows n shape(1) pos unit)
  moreover have "S ! 0 ! 0 = 1 / sigma_sq * real (length X)"
    unfolding assms(2) by (rule scaled_gram_corner(1)[OF assms(1)])
  ultimately have "0 < 1 / sigma_sq * real (length X)" by simp
  moreover have "0 < real (length X)" using assms(1) by simp
  ultimately have sigma_sq: "0 < sigma_sq" by (simp add: zero_less_divide_iff)
  let ?e = "map (\<lambda>l. 1 / sqrt l) eig_vals"
  have e_pos: "list_all (\<lambda>x. 0 < x) ?e" using pos by (simp add: list_all_iff)
  have diag: "diag_vec (covariance_like sigma_sq eig_vals V) =
      map (\<lambda>i. sigma_sq * dot_vec (map2 (*) (V ! i) ?e) (V ! i)) [0..<n]"
    by (rule covariance_like_diagonal[OF shape(2,3,1)])
  have d_pos: "0 < d" if "d \<in> set (diag_vec (covariance_like sigma_sq eig_vals V))" for d
  proof -
    from that obtain i where i: "i < n"
      and d: "d = sigma_sq * dot_vec (map2 (*) (V ! i) ?e) (V ! i)"
      unfolding diag by auto
    have "0 < dot_vec (map2 (*) (V ! i) ?e) (V ! i)"
      by (rule weighted_square_pos) (simp_all add: rows i shape(1) e_pos unit)
    then show ?thesis using sigma_sq d by simp
  qed
  then have nz: "list_all (\<lambda>d. d \<noteq> 0) (diag_vec (covariance_like sigma_sq eig_vals V))"
    by (auto simp: list_all_iff)
  let ?ps = "map2 (\<lambda>c d. 2 * (1 - cdf (\<bar>c\<bar> / d))) (bias # W)
               (diag_vec (covariance_like sigma_sq eig_vals V))"
  have nonzero: "sigma_sq \<noteq> 0" using sigma_sq by simp
  have eq': "eigh (mat_scale (1 / sigma_sq) (matmul (transpose_mat (hstack_ones X)) (hstack_ones X)))
               = (eig_vals, V)"
    using eq unfolding assms(2) .
  have "coefficient_p_values eigh cdf W bias sigma_sq X = Inr (Finite ?ps)"
    using nonzero eq' pos nz by (rule coefficient_p_values_finite)
  moreover have "list_all (\<lambda>p. 0 \<le> p \<and> p \<le> 1) ?ps"
    unfolding list_all_iff
  proof
    fix p assume "p \<in> set ?ps"
    then obtain c d where "d \<in> set (diag_vec (covariance_like sigma_sq eig_vals V))"
      and "p = 2 * (1 - cdf (\<bar>c\<bar> / d))"
      by (auto dest: set_zip_rightD)
    then show "0 \<le> p \<and> p \<le> 1"
      using p_value_in_unit_interval[OF assms(5) d_pos] by simp
  qed
  ultimately show ?thesis by blast
qed

text \<open>
  Claim C3, amended. Where the arithmetic stays finite (the variance is not zero, the
  eigenvalues returned for \<open>(1/sigma2) * X_\<^sup>T X_\<close> are positive, no diagonal entry is zero), the
  matrix \<open>W_std\<close> is \<open>sigma2 * V \<cdot> diag(1/sqrt(eigenvalues)) \<cdot> V\<^sup>T\<close> and the cell returns, for the
  intercept and every weight, \<open>2 * (1 - \<Phi>(|coefficient| / d))\<close> with \<open>d\<close> the coefficient's
  diagonal entry of that matrix: the cell divides by the diagonal entry itself, not by its
  square root.
\<close>

theorem coefficient_p_values_formula:
  assumes "sigma_sq \<noteq> 0"
    and "eigh (mat_scale (1 / sigma_sq) (matmul (transpose_mat (hstack_ones X)) (hstack_ones X)))
           = (eig_vals, V)"
    and "list_all (\<lambda>l. 0 < l) eig_vals"
    and "list_all (\<lambda>d. d \<noteq> 0) (diag_vec (covariance_like sigma_sq eig_vals V))"
  shows "coefficient_p_values eigh cdf W bias sigma_sq X =
           Inr (Finite (map2 (\<lambda>c d. 2 * (1 - cdf (\<bar>c\<bar> / d))) (bias # W)
                          (diag_vec (covariance_like sigma_sq eig_vals V))))"
  using assms by (rule coefficient_p_values_finite)

text \<open>Two design matrices, the eigendecompositions of their Gram matrices, and a distribution
  function, for running the model.\<close>

definition full_rank_X :: mat where
  "full_rank_X = [[1, 1], [-1, 1], [1, -1], [-1, -1]]"

definition rank_deficient_X :: mat where
  "rank_deficient_X = [[3, 4], [-3, -4]]"

definition example_eigh :: "mat \<Rightarrow> vec \<times> mat" where
  "example_eigh S =
     (if S = [[16, 0, 0], [0, 16, 0], [0, 0, 16]]
      then ([16, 16, 16], [[1, 0, 0], [0, 1, 0], [0, 0, 1]])
      else if S = [[2, 0, 0], [0, 18, 24], [0, 24, 32]]
      then ([0, 2, 50], [[0, 1, 0], [4/5, 0, 3/5], [-3/5, 0, 4/5]])
      else ([], []))"

definition example_cdf :: "real \<Rightarrow> real" where
  "example_cdf z = 1/2 + z / (2 * (1 + \<bar>z\<bar>))"

lemma upt_3: "[0..<3] = [0, 1, 2]"
  by (simp add: upt_rec)

lemma matrix_eval:
  "transpose_mat [[a, b, c], [d, e, f], [g, h, i]] = [[a, d, g], [b, e, h], [c, f, i]]"
  "diag_mat [a, b, c] = [[a, 0, 0], [0, b, 0], [0, 0, c]]"
  "diag_vec [[a, b, c], [d, e, f], [g, h, i]] = [a, e, i]"
  by (simp_all add: transpose_mat_def diag_mat_def diag_vec_def upt_3)

lemma matmul_eval:
  "matmul [[a, b, c], [d, e, f], [g, h, i]] [[a', b', c'], [d', e', f'], [g', h', i']] =
     [[a * a' + b * d' + c * g', a * b' + b * e' + c * h', a * c' + b * f' + c * i'],
      [d * a' + e * d' + f * g', d * b' + e * e' + f * h', d * c' + e * f' + f * i'],
      [g * a' + h * d' + i * g', g * b' + h * e' + i * h', g * c' + h * f' + i * i']]"
  by (simp add: matmul_def matrix_eval dot_vec_def)

lemma full_rank_gram:
  "mat_scale 4 (matmul (transpose_mat (hstack_ones full_rank_X)) (hstack_ones full_rank_X))
     = [[16, 0, 0], [0, 16, 0], [0, 0, 16]]"
  by (simp add: full_rank_X_def hstack_ones_def transpose_mat_def upt_3 matmul_def dot_vec_def
      mat_scale_def vscale_def)

lemma rank_deficient_gram:
  "mat_scale 1 (matmul (transpose_mat (hstack_ones rank_deficient_X)) (hstack_ones rank_deficient_X))
     = [[2, 0, 0], [0, 18, 24], [0, 24, 32]]"
  by (simp add: rank_deficient_X_def hstack_ones_def transpose_mat_def upt_3 matmul_def dot_vec_def
      mat_scale_def vscale_def)

lemma sqrt_16: "sqrt 16 = 4"
  by (rule real_sqrt_unique) simp_all

lemma full_rank_covariance:
  "covariance_like (1/4) [16, 16, 16] [[1, 0, 0], [0, 1, 0], [0, 0, 1]]
     = [[1/16, 0, 0], [0, 1/16, 0], [0, 0, 1/16]]"
  by (simp add: covariance_like_def matrix_eval matmul_eval sqrt_16 mat_scale_def vscale_def)

lemma example_cdf_like: "cdf_like example_cdf"
  unfolding cdf_like_def example_cdf_def
proof (intro allI impI)
  fix z :: real assume z: "0 \<le> z"
  then have a: "\<bar>z\<bar> = z" by simp
  have "0 \<le> z / (2 * (1 + z))" using z by simp
  moreover have "z / (2 * (1 + z)) \<le> 1/2" using z by (simp add: field_simps)
  ultimately show "1/2 \<le> 1/2 + z / (2 * (1 + \<bar>z\<bar>)) \<and> 1/2 + z / (2 * (1 + \<bar>z\<bar>)) \<le> 1"
    unfolding a by linarith
qed

lemma full_rank_eigh_valid:
  "eigh_valid [[16, 0, 0], [0, 16, 0], [0, 0, 16]]
     (example_eigh [[16, 0, 0], [0, 16, 0], [0, 0, 16]])"
  by (simp add: eigh_valid_def example_eigh_def Let_def matrix_eval matmul_eval)

lemma rank_deficient_eigh_valid:
  "eigh_valid [[2, 0, 0], [0, 18, 24], [0, 24, 32]]
     (example_eigh [[2, 0, 0], [0, 18, 24], [0, 24, 32]])"
  by (simp add: eigh_valid_def example_eigh_def Let_def matrix_eval matmul_eval)

lemma example_eigh_full_rank:
  "example_eigh (mat_scale 4
       (matmul (transpose_mat (hstack_ones full_rank_X)) (hstack_ones full_rank_X)))
     = ([16, 16, 16], [[1, 0, 0], [0, 1, 0], [0, 0, 1]])"
  by (simp add: full_rank_gram example_eigh_def)

lemma example_eigh_full_rank':
  "example_eigh (mat_scale (1 / (1/4))
       (matmul (transpose_mat (hstack_ones full_rank_X)) (hstack_ones full_rank_X)))
     = ([16, 16, 16], [[1, 0, 0], [0, 1, 0], [0, 0, 1]])"
  using example_eigh_full_rank by simp

lemma example_eigh_rank_deficient:
  "example_eigh (mat_scale 1
       (matmul (transpose_mat (hstack_ones rank_deficient_X)) (hstack_ones rank_deficient_X)))
     = ([0, 2, 50], [[0, 1, 0], [4/5, 0, 3/5], [-3/5, 0, 4/5]])"
  by (simp add: rank_deficient_gram example_eigh_def)

lemma full_rank_code_p_values:
  "coefficient_p_values example_eigh cdf [1, 1] 1 (1/4) full_rank_X =
     Inr (Finite [2 * (1 - cdf 16), 2 * (1 - cdf 16), 2 * (1 - cdf 16)])"
proof -
  have h1: "(1/4::real) \<noteq> 0" by simp
  have h3: "list_all (\<lambda>l. 0 < l) [16, 16, 16::real]" by simp
  have h4: "list_all (\<lambda>d. d \<noteq> 0)
      (diag_vec (covariance_like (1/4) [16, 16, 16] [[1, 0, 0], [0, 1, 0], [0, 0, 1]]))"
    by (simp add: full_rank_covariance matrix_eval)
  show ?thesis
    using coefficient_p_values_finite[where eigh = example_eigh and cdf = cdf, OF h1 example_eigh_full_rank' h3 h4,
        of "[1, 1]" 1]
    by (simp add: full_rank_covariance matrix_eval)
qed

theorem coefficient_p_values_formula_witness:
  "(1/4::real) \<noteq> 0
   \<and> example_eigh (mat_scale (1 / (1/4))
         (matmul (transpose_mat (hstack_ones full_rank_X)) (hstack_ones full_rank_X)))
       = ([16, 16, 16], [[1, 0, 0], [0, 1, 0], [0, 0, 1]])
   \<and> list_all (\<lambda>l. 0 < l) [16, 16, 16::real]
   \<and> list_all (\<lambda>d. d \<noteq> 0)
        (diag_vec (covariance_like (1/4) [16, 16, 16] [[1, 0, 0], [0, 1, 0], [0, 0, 1]]))
   \<and> coefficient_p_values example_eigh example_cdf [1, 1] 1 (1/4) full_rank_X =
       Inr (Finite [1/17, 1/17, 1/17])"
proof -
  have h1: "(1/4::real) \<noteq> 0" by simp
  have h3: "list_all (\<lambda>l. 0 < l) [16, 16, 16::real]" by simp
  have h4: "list_all (\<lambda>d. d \<noteq> 0)
      (diag_vec (covariance_like (1/4) [16, 16, 16] [[1, 0, 0], [0, 1, 0], [0, 0, 1]]))"
    by (simp add: full_rank_covariance matrix_eval)
  have "coefficient_p_values example_eigh example_cdf [1, 1] 1 (1/4) full_rank_X =
       Inr (Finite [1/17, 1/17, 1/17])"
    using coefficient_p_values_formula[where eigh = example_eigh and cdf = example_cdf,
        OF h1 example_eigh_full_rank' h3 h4, of "[1, 1]" 1]
    by (simp add: full_rank_covariance matrix_eval example_cdf_def)
  then show ?thesis using h1 h3 h4 example_eigh_full_rank' by blast
qed

lemma full_rank_spec_p_values:
  "spec_p_values example_eigh cdf [1, 1] 1 (1/4) full_rank_X =
     [2 * (1 - cdf 4), 2 * (1 - cdf 4), 2 * (1 - cdf 4)]"
proof -
  have s: "sqrt (1/16) = 1/4" by (rule real_sqrt_unique) (simp_all add: power2_eq_square)
  show ?thesis
    by (simp add: spec_p_values_def Let_def example_eigh_full_rank full_rank_covariance
        matrix_eval s)
qed

text \<open>
  Claim C3 as stated, with the square root of the diagonal entry, fails: for four samples
  with orthogonal columns, variance \<open>1/4\<close> and all coefficients \<open>1\<close> the diagonal entries are
  \<open>1/16\<close>; the cell evaluates the distribution function at \<open>16\<close>, the claim's formula at \<open>4\<close>,
  and no strictly increasing function has the same value at both.
\<close>

theorem spec_p_values_counterexample:
  "\<not> (\<exists>cdf. strict_mono cdf \<and>
        coefficient_p_values example_eigh cdf [1, 1] 1 (1/4) full_rank_X =
          Inr (Finite (spec_p_values example_eigh cdf [1, 1] 1 (1/4) full_rank_X)))"
proof
  assume "\<exists>cdf. strict_mono cdf \<and>
        coefficient_p_values example_eigh cdf [1, 1] 1 (1/4) full_rank_X =
          Inr (Finite (spec_p_values example_eigh cdf [1, 1] 1 (1/4) full_rank_X))"
  then obtain cdf :: "real \<Rightarrow> real" where mono: "strict_mono cdf"
    and eq: "coefficient_p_values example_eigh cdf [1, 1] 1 (1/4) full_rank_X =
          Inr (Finite (spec_p_values example_eigh cdf [1, 1] 1 (1/4) full_rank_X))"
    by blast
  from eq have "cdf 16 = cdf 4"
    by (simp add: full_rank_code_p_values full_rank_spec_p_values)
  moreover have "cdf 4 < cdf 16" using mono by (simp add: strict_mono_def)
  ultimately show False by simp
qed

theorem rank_deficient_returns_nonfinite_witness:
  "(\<exists>l\<in>set (fst (example_eigh (mat_scale (1 / 1)
        (matmul (transpose_mat (hstack_ones rank_deficient_X)) (hstack_ones rank_deficient_X))))).
      l \<le> 0)
   \<and> coefficient_p_values example_eigh example_cdf [1, 1] 1 1 rank_deficient_X = Inr NonFinite"
proof -
  have h: "\<exists>l\<in>set (fst (example_eigh (mat_scale (1 / 1)
        (matmul (transpose_mat (hstack_ones rank_deficient_X)) (hstack_ones rank_deficient_X))))).
      l \<le> 0"
    by (simp add: example_eigh_rank_deficient)
  show ?thesis
    using rank_deficient_returns_nonfinite[where eigh = example_eigh and cdf = example_cdf,
        OF h, of "[1, 1]" 1] h by blast
qed

text \<open>
  Claim C6 as stated fails: for the rank-deficient design matrix with the columns
  \<open>(1, 1)\<close>, \<open>(3, -3)\<close>, \<open>(4, -4)\<close>, whose scaled Gram matrix has the eigenvalues 0, 2 and 50,
  the result of the cell is not an error.
\<close>

theorem rank_deficient_no_error_counterexample:
  "eigh_valid
     (mat_scale (1 / 1)
        (matmul (transpose_mat (hstack_ones rank_deficient_X)) (hstack_ones rank_deficient_X)))
     (example_eigh (mat_scale (1 / 1)
        (matmul (transpose_mat (hstack_ones rank_deficient_X)) (hstack_ones rank_deficient_X))))
   \<and> fst (example_eigh (mat_scale (1 / 1)
        (matmul (transpose_mat (hstack_ones rank_deficient_X)) (hstack_ones rank_deficient_X))))
       = [0, 2, 50]
   \<and> \<not> isl (coefficient_p_values example_eigh example_cdf [1, 1] 1 1 rank_deficient_X)"
  using rank_deficient_eigh_valid
  by (simp add: rank_deficient_gram coefficient_p_values_def Let_def W_std_def)
    (simp add: example_eigh_def)

theorem p_values_in_unit_interval_witness:
  "full_rank_X \<noteq> []
   \<and> eigh_valid
       (mat_scale (1 / (1/4))
          (matmul (transpose_mat (hstack_ones full_rank_X)) (hstack_ones full_rank_X)))
       (example_eigh (mat_scale (1 / (1/4))
          (matmul (transpose_mat (hstack_ones full_rank_X)) (hstack_ones full_rank_X))))
   \<and> list_all (\<lambda>l. 0 < l)
       (fst (example_eigh (mat_scale (1 / (1/4))
          (matmul (transpose_mat (hstack_ones full_rank_X)) (hstack_ones full_rank_X)))))
   \<and> cdf_like example_cdf
   \<and> (\<exists>ps. coefficient_p_values example_eigh example_cdf [1, 1] 1 (1/4) full_rank_X
               = Inr (Finite ps)
           \<and> list_all (\<lambda>p. 0 \<le> p \<and> p \<le> 1) ps)"
proof -
  let ?S = "mat_scale (1 / (1/4))
          (matmul (transpose_mat (hstack_ones full_rank_X)) (hstack_ones full_rank_X))"
  have h1: "full_rank_X \<noteq> []" by (simp add: full_rank_X_def)
  have h3: "eigh_valid ?S (example_eigh ?S)"
    using full_rank_eigh_valid by (simp add: full_rank_gram)
  have h4: "list_all (\<lambda>l. 0 < l) (fst (example_eigh ?S))"
    by (simp add: example_eigh_full_rank)
  show ?thesis
    using p_values_in_unit_interval[where eigh = example_eigh and cdf = example_cdf,
        OF h1 refl h3 h4 example_cdf_like, of "[1, 1]" 1]
      h1 h3 h4 example_cdf_like by blast
qed

section \<open>Two runs of the full-batch loop\<close>

lemma example_full_batch_epoch:
  assumes "W_now s = [w]"
  shows "W_now (full_batch_epoch (fd_grad 1) lr example_X example_y s) = [w - lr * (2 * (w - 1))]"
    and "b_now (full_batch_epoch (fd_grad 1) lr example_X example_y s) = b_now s - lr * (2 * b_now s)"
  by (simp_all add: full_batch_epoch_fields assms example_fd_grad vsub_def vscale_def)

text \<open>With learning rate \<open>1/2\<close> the example reaches the minimum in the first epoch and the
  loop returns after the second.\<close>

theorem fit_full_batch_stops_witness:
  "fit_full_batch (fd_grad 1) (1/2) (1/100000) example_X example_y example_start =
     Some \<lparr>W_now = [1], b_now = 0, old_W = [1], old_b = 0, loss_val = 0,
       minibatch_loss = 0, epoch = 1, printed = [(0, 1, [1], 0)]\<rparr>"
proof -
  let ?body = "full_batch_epoch (fd_grad 1) (1/2) example_X example_y"
  let ?small = "\<lambda>n. norm2 (vsub (W_now (?body (epoch_start ?body n example_start)))
                              (W_now (epoch_start ?body n example_start))) < 1/100000
                   \<and> norm2 [b_now (?body (epoch_start ?body n example_start))
                             - b_now (epoch_start ?body n example_start)] < 1/100000"
  have s0: "?body example_start =
      \<lparr>W_now = [1], b_now = 0, old_W = [0], old_b = 0, loss_val = 1,
       minibatch_loss = 0, epoch = 0, printed = [(0, 1, [1], 0)]\<rparr>"
    by (simp add: full_batch_epoch_def Let_def example_start_def example_fd_grad example_loss
        vsub_def vscale_def)
  have s1: "?body (next_epoch \<lparr>W_now = [1], b_now = 0, old_W = [0], old_b = 0, loss_val = 1,
       minibatch_loss = 0, epoch = 0, printed = [(0, 1, [1], 0)]\<rparr>) =
      \<lparr>W_now = [1], b_now = 0, old_W = [1], old_b = 0, loss_val = 0,
       minibatch_loss = 0, epoch = 1, printed = [(0, 1, [1], 0)]\<rparr>"
    by (simp add: full_batch_epoch_def Let_def next_epoch_def example_fd_grad example_loss
        vsub_def vscale_def)
  have n1: "W_now (next_epoch s) = W_now s" "b_now (next_epoch s) = b_now s" for s
    by (simp_all add: next_epoch_def)
  have e: "W_now example_start = [0]" "b_now example_start = 0"
    by (simp_all add: example_start_def)
  have not0: "\<not> ?small 0"
    by (simp add: s0 e vsub_def norm2_single)
  have at1: "?small 1"
    by (simp add: s0 s1 n1 vsub_def norm2_single)
  have least: "(LEAST n. ?small n) = 1"
  proof (rule Least_equality)
    show "?small 1" by (rule at1)
  next
    fix n assume "?small n"
    then have "n \<noteq> 0" using not0 by (cases n) auto
    then show "1 \<le> n" by simp
  qed
  have ex: "\<exists>n. ?small n" using at1 by blast
  have "fit_full_batch (fd_grad 1) (1/2) (1/100000) example_X example_y example_start =
      Some (?body (epoch_start ?body (LEAST n. ?small n) example_start))"
    using fit_full_batch_stops[of "fd_grad 1" "1/2" "1/100000" example_X example_y example_start]
      ex unfolding Let_def by simp
  then show ?thesis unfolding least by (simp add: s0 s1)
qed

text \<open>With learning rate \<open>1\<close> the weight of the example alternates between 0 and 2: no epoch's
  change is below the tolerance and the loop never returns.\<close>

lemma example_oscillates:
  "b_now (epoch_start (full_batch_epoch (fd_grad 1) 1 example_X example_y) n example_start) = 0
   \<and> W_now (epoch_start (full_batch_epoch (fd_grad 1) 1 example_X example_y) n example_start)
       = (if even n then [0] else [2])"
proof (induction n)
  case 0
  show ?case by (simp add: example_start_def)
next
  case (Suc n)
  then show ?case
    by (cases "even n") (simp_all add: next_epoch_def example_full_batch_epoch)
qed

lemma fit_full_batch_example_never_returns:
  "fit_full_batch (fd_grad 1) 1 (1/100000) example_X example_y example_start = None"
proof -
  let ?body = "full_batch_epoch (fd_grad 1) 1 example_X example_y"
  have "\<not> converged (1/100000) (?body (epoch_start ?body n example_start))" for n
  proof -
    let ?s = "epoch_start ?body n example_start"
    have w: "W_now ?s = (if even n then [0] else [2])" using example_oscillates[of n] by simp
    have "norm2 (vsub (W_now (?body ?s)) (W_now ?s)) = 2"
      by (cases "even n")
        (simp_all add: w example_full_batch_epoch(1)[of ?s] vsub_def norm2_single)
    then show ?thesis by (simp add: converged_def full_batch_epoch_fields)
  qed
  then show ?thesis by (simp add: fit_full_batch_def while_true_char)
qed

end
